theory Spec2Isabelle
  imports Main "HOL-Library.Sublist" "HOL-Library.Multiset"
begin

section \<open>Data model of \<open>src/index.js\<close>\<close>

text \<open>
  The program keeps its whole state in module-level variables and in three kinds of JSON
  files below \<open>~/.clipai\<close>. The model is one record holding the variables, the files
  and the console, passed to and returned from every function.

  JavaScript strings are lists of code units (\<open>string\<close>), \<open>null\<close> is \<open>None\<close>,
  \<open>Date.now()\<close> is a parameter \<open>now\<close> of every function that reads the clock.

  The terminal, the readline loop and the network client are outside the model: the two
  completion callbacks of \<open>handlePrompt\<close> take the drained response text and the response
  id as arguments. Objects read from files have all their fields (the shapes this program
  writes); a conversation id is never the name of a property of \<open>Object.prototype\<close>; a
  write into an existing directory succeeds.
\<close>

record message =
  role :: string
  content :: string

text \<open>\<open>historyEntry\<close> of \<open>saveResponseToHistory\<close>; the field \<open>id\<close> is named \<open>entry_id\<close>.\<close>

record entry =
  prompt :: string
  response :: string
  fullResponse :: string
  entry_id :: string
  timestamp :: nat

text \<open>An element of \<open>allResponseHistory\<close>: \<open>{...historyEntry, conversationId}\<close>.\<close>

record gentry = entry +
  conversationId :: string

definition with_conversationId :: "entry \<Rightarrow> string \<Rightarrow> gentry" where
  "with_conversationId r c =
     \<lparr>prompt = prompt r, response = response r, fullResponse = fullResponse r,
      entry_id = entry_id r, timestamp = timestamp r, conversationId = c\<rparr>"

text \<open>The six variables written to \<open>state.json\<close>.\<close>

record session =
  lastResponseId :: "string option"
  conversationContext :: "message list"
  currentConversationId :: "string option"
  pausedConversation :: bool
  pausedConversationContext :: "message list"
  pausedConversationId :: "string option"

text \<open>\<open>convData\<close> of \<open>saveState\<close>, the content of \<open>conversations/<id>.json\<close>.\<close>

record convData =
  conv_id :: string
  conv_context :: "message list"
  history :: "string list"

text \<open>
  What reading a file gives: \<open>Corrupt\<close> is a content on which \<open>JSON.parse\<close> (or the
  field access that follows it) throws, \<open>Parsed v\<close> a content that parses to \<open>v\<close>.
  A directory is the list of its entries in the order \<open>readdirSync\<close> returns them,
  \<open>None\<close> when it does not exist.
\<close>

datatype 'a json_file = Corrupt | Parsed 'a

record disk =
  stateFile :: "session json_file option"
  conversationsDir :: "(string \<times> convData json_file) list option"
  responsesDir :: "(string \<times> entry list json_file) list option"

record state = session +
  commandHistory :: "string list"
  conversationHistories :: "string \<rightharpoonup> string list"
  responseHistory :: "string \<rightharpoonup> entry list"
  allResponseHistory :: "gentry list"
  fs :: disk
  console :: "string list"

definition MAX_HISTORY :: nat where
  "MAX_HISTORY = 50"

section \<open>JavaScript helpers\<close>

text \<open>Truthiness of a value that is \<open>null\<close> or a string: the empty string is falsy.\<close>

fun truthy :: "string option \<Rightarrow> bool" where
  "truthy None = False"
| "truthy (Some s) = (s \<noteq> [])"

text \<open>Template literal \<open>`${n}`\<close> of a non-negative integer: its decimal digits.\<close>

definition digit_char :: "nat \<Rightarrow> char" where
  "digit_char d = ''0123456789'' ! d"

fun show_nat :: "nat \<Rightarrow> string" where
  "show_nat n = (if n < 10 then [digit_char n] else show_nat (n div 10) @ [digit_char (n mod 10)])"

declare show_nat.simps [simp del]

text \<open>\<open>`conv_${Date.now()}`\<close>\<close>

definition new_conv_id :: "nat \<Rightarrow> string" where
  "new_conv_id now = ''conv_'' @ show_nat now"

text \<open>\<open>console.log\<close> and \<open>console.error\<close> (colours dropped).\<close>

definition log :: "string \<Rightarrow> state \<Rightarrow> state" where
  "log m st = st\<lparr>console := console st @ [m]\<rparr>"

text \<open>\<open>s.substring(0, n)\<close> is \<open>take n s\<close>.\<close>

definition id_prefix :: "string \<Rightarrow> string" where
  "id_prefix s = take 8 s"

section \<open>Persistence\<close>

text \<open>
  \<open>fs.writeFileSync(path.join(dir, name), JSON.stringify(v))\<close>: the entry \<open>name\<close> of the
  directory is replaced, or added when new. Writing into a directory that does not exist
  throws; the callers catch and log.
\<close>

fun writeFile :: "string \<Rightarrow> 'a \<Rightarrow> (string \<times> 'a json_file) list \<Rightarrow> (string \<times> 'a json_file) list" where
  "writeFile name v [] = [(name, Parsed v)]"
| "writeFile name v ((n, c) # es) =
     (if n = name then (n, Parsed v) # es else (n, c) # writeFile name v es)"

definition current_session :: "state \<Rightarrow> session" where
  "current_session st =
     \<lparr>lastResponseId = lastResponseId st,
      conversationContext = conversationContext st,
      currentConversationId = currentConversationId st,
      pausedConversation = pausedConversation st,
      pausedConversationContext = pausedConversationContext st,
      pausedConversationId = pausedConversationId st\<rparr>"

definition saveState :: "state \<Rightarrow> state" where
  "saveState st =
     (let d = (fs st)\<lparr>stateFile := Some (Parsed (current_session st))\<rparr> in
      case currentConversationId st of
        None \<Rightarrow> st\<lparr>fs := d\<rparr>
      | Some cid \<Rightarrow>
          if cid = [] then st\<lparr>fs := d\<rparr>
          else
            (case conversationsDir d of
               None \<Rightarrow> log ''Failed to save conversation state:'' (st\<lparr>fs := d\<rparr>)
             | Some es \<Rightarrow>
                 st\<lparr>fs := d\<lparr>conversationsDir := Some
                   (writeFile (cid @ ''.json'')
                      \<lparr>conv_id = cid, conv_context = conversationContext st,
                       history = (case conversationHistories st cid of
                                    Some h \<Rightarrow> h | None \<Rightarrow> [])\<rparr> es)\<rparr>\<rparr>))"

text \<open>\<open>aiResponse.substring(0, 100) + (aiResponse.length > 100 ? '...' : '')\<close>\<close>

definition truncate_response :: "string \<Rightarrow> string" where
  "truncate_response r = take 100 r @ (if length r > 100 then ''...'' else '''')"

definition saveResponseToHistory ::
  "nat \<Rightarrow> string \<Rightarrow> string \<Rightarrow> string option \<Rightarrow> state \<Rightarrow> state" where
  "saveResponseToHistory now userPrompt aiResponse responseId st =
     (case (responseId, currentConversationId st) of
        (Some rid, Some cid) \<Rightarrow>
          if rid \<noteq> [] \<and> aiResponse \<noteq> [] \<and> cid \<noteq> [] then
            (let historyEntry =
                   \<lparr>prompt = userPrompt, response = truncate_response aiResponse,
                    fullResponse = aiResponse, entry_id = rid, timestamp = now\<rparr>;
                 old = (case responseHistory st cid of Some rs \<Rightarrow> rs | None \<Rightarrow> []);
                 rs1 = historyEntry # old;
                 rs2 = (if length rs1 > MAX_HISTORY then take MAX_HISTORY rs1 else rs1);
                 all1 = with_conversationId historyEntry cid # allResponseHistory st;
                 all2 = (if length all1 > MAX_HISTORY * 5 then take (MAX_HISTORY * 5) all1
                         else all1);
                 st1 = st\<lparr>responseHistory := (responseHistory st)(cid \<mapsto> rs2),
                          allResponseHistory := all2\<rparr>
             in case responsesDir (fs st1) of
                  None \<Rightarrow> log ''Failed to save response history:'' st1
                | Some es \<Rightarrow>
                    st1\<lparr>fs := (fs st1)\<lparr>responsesDir :=
                      Some (writeFile (cid @ ''.json'') rs2 es)\<rparr>\<rparr>)
          else st
      | _ \<Rightarrow> st)"

text \<open>
  \<open>file.endsWith('.json')\<close> is \<open>suffix ''.json'' file\<close>;
  \<open>file.replace('.json', '')\<close> removes the first occurrence of \<open>.json\<close>.
\<close>

fun remove_first :: "string \<Rightarrow> string \<Rightarrow> string" where
  "remove_first p [] = []"
| "remove_first p (c # cs) =
     (if prefix p (c # cs) then drop (length p) (c # cs) else c # remove_first p cs)"

definition convIdOf :: "string \<Rightarrow> string" where
  "convIdOf file = remove_first ''.json'' file"

definition defaultState :: session where
  "defaultState =
     \<lparr>lastResponseId = None, conversationContext = [], currentConversationId = None,
      pausedConversation = False, pausedConversationContext = [],
      pausedConversationId = None\<rparr>"

text \<open>
  The body of the \<open>try\<close> block of \<open>loadState\<close>, in three parts. Each returns
  \<open>Inr\<close> the state it reached, or \<open>Inl\<close> the state at the point where \<open>JSON.parse\<close>
  threw.
\<close>

definition loadSession :: "state \<Rightarrow> state + state" where
  "loadSession st =
     (case stateFile (fs st) of
        None \<Rightarrow> Inr (st\<lparr>fs := (fs st)\<lparr>stateFile := Some (Parsed defaultState)\<rparr>\<rparr>)
      | Some Corrupt \<Rightarrow> Inl st
      | Some (Parsed s) \<Rightarrow>
          Inr (st\<lparr>lastResponseId := lastResponseId s,
                  conversationContext := conversationContext s,
                  currentConversationId := currentConversationId s,
                  pausedConversation := pausedConversation s,
                  pausedConversationContext := pausedConversationContext s,
                  pausedConversationId := pausedConversationId s\<rparr>))"

fun loadConversations :: "(string \<times> convData json_file) list \<Rightarrow> state \<Rightarrow> state + state" where
  "loadConversations [] st = Inr st"
| "loadConversations ((file, c) # es) st =
     (if suffix ''.json'' file then
        (case c of
           Corrupt \<Rightarrow> Inl st
         | Parsed convData \<Rightarrow>
             loadConversations es
               (st\<lparr>conversationHistories :=
                     (conversationHistories st)(convIdOf file \<mapsto> history convData)\<rparr>))
      else loadConversations es st)"

fun loadResponses :: "(string \<times> entry list json_file) list \<Rightarrow> state \<Rightarrow> state + state" where
  "loadResponses [] st = Inr st"
| "loadResponses ((file, c) # es) st =
     (if suffix ''.json'' file then
        (case c of
           Corrupt \<Rightarrow> Inl st
         | Parsed respData \<Rightarrow>
             loadResponses es
               (st\<lparr>responseHistory := (responseHistory st)(convIdOf file \<mapsto> respData),
                    allResponseHistory := allResponseHistory st @
                      map (\<lambda>r. with_conversationId r (convIdOf file)) respData\<rparr>))
      else loadResponses es st)"

text \<open>
  \<open>allResponseHistory.sort((a, b) => b.timestamp - a.timestamp)\<close>: descending by
  timestamp; \<open>Array.prototype.sort\<close> is stable, as \<open>sort_key\<close> is.
\<close>

definition sortByTimestamp :: "gentry list \<Rightarrow> gentry list" where
  "sortByTimestamp rs = sort_key (\<lambda>r. - int (timestamp r)) rs"

definition resetState :: "state \<Rightarrow> state" where
  "resetState st =
     st\<lparr>lastResponseId := None, conversationContext := [], currentConversationId := None,
        pausedConversation := False, pausedConversationContext := [],
        pausedConversationId := None, commandHistory := [],
        conversationHistories := Map.empty, responseHistory := Map.empty,
        allResponseHistory := []\<rparr>"

definition loadBody :: "state \<Rightarrow> state + state" where
  "loadBody st =
     (case loadSession st of
        Inl e \<Rightarrow> Inl e
      | Inr st1 \<Rightarrow>
          (case (case conversationsDir (fs st1) of
                   None \<Rightarrow> Inr st1
                 | Some es \<Rightarrow> loadConversations es st1) of
             Inl e \<Rightarrow> Inl e
           | Inr st2 \<Rightarrow>
               (case (case responsesDir (fs st2) of
                        None \<Rightarrow> Inr st2
                      | Some es \<Rightarrow> loadResponses es st2) of
                  Inl e \<Rightarrow> Inl e
                | Inr st3 \<Rightarrow>
                    Inr (st3\<lparr>allResponseHistory :=
                               sortByTimestamp (allResponseHistory st3)\<rparr>))))"

definition loadState :: "state \<Rightarrow> state" where
  "loadState st =
     (case loadBody st of
        Inr st' \<Rightarrow> st'
      | Inl e \<Rightarrow> resetState (log ''Error loading state:'' e))"

text \<open>The module-level initial values of the variables, over a given disk.\<close>

definition initialState :: "disk \<Rightarrow> state" where
  "initialState d =
     \<lparr>lastResponseId = None, conversationContext = [], currentConversationId = None,
      pausedConversation = False, pausedConversationContext = [],
      pausedConversationId = None, commandHistory = [],
      conversationHistories = Map.empty, responseHistory = Map.empty,
      allResponseHistory = [], fs = d, console = []\<rparr>"

text \<open>
  \<open>startCLI\<close> up to \<open>saveState()\<close>: the state is loaded, then the six session variables
  and the command history are cleared ("always start with a fresh conversation"), and
  the cleared state is written back.
\<close>

definition startCLI :: "state \<Rightarrow> state" where
  "startCLI st =
     saveState ((loadState st)
       \<lparr>lastResponseId := None, conversationContext := [], currentConversationId := None,
        pausedConversation := False, pausedConversationContext := [],
        pausedConversationId := None, commandHistory := []\<rparr>)"

definition startNewConversation :: "nat \<Rightarrow> state \<Rightarrow> state" where
  "startNewConversation now st =
     saveState (st\<lparr>lastResponseId := None, conversationContext := [],
                  currentConversationId := Some (new_conv_id now),
                  commandHistory := [],
                  conversationHistories := (conversationHistories st)(new_conv_id now \<mapsto> [])\<rparr>)"

text \<open>The \<open>new\<close> command of \<open>promptUser\<close>.\<close>

definition cmd_new :: "nat \<Rightarrow> state \<Rightarrow> state" where
  "cmd_new now st =
     log ''Started new conversation''
       (startNewConversation now
          (st\<lparr>pausedConversation := False, pausedConversationContext := [],
              pausedConversationId := None\<rparr>))"

section \<open>Recording a completed exchange (\<open>handlePrompt\<close>)\<close>

text \<open>
  Both completion callbacks of \<open>handlePrompt\<close> build the context the same way: the user
  message is pushed unless the last message already is that user turn, then the
  assistant message is pushed.
\<close>

definition newUserMessage :: "string \<Rightarrow> message" where
  "newUserMessage p = \<lparr>role = ''user'', content = p\<rparr>"

definition newAssistantMessage :: "string \<Rightarrow> message" where
  "newAssistantMessage r = \<lparr>role = ''assistant'', content = r\<rparr>"

definition pushUserMessage :: "string \<Rightarrow> message list \<Rightarrow> message list" where
  "pushUserMessage p ctx =
     (if length ctx = 0 then [newUserMessage p]
      else if \<not> (role (last ctx) = ''user'' \<and> content (last ctx) = p)
      then ctx @ [newUserMessage p]
      else ctx)"

definition ensureConversationId :: "nat \<Rightarrow> state \<Rightarrow> state" where
  "ensureConversationId now st =
     (if \<not> truthy (currentConversationId st)
      then st\<lparr>currentConversationId := Some (new_conv_id now)\<rparr> else st)"

text \<open>
  The branch for a complete (non-streamed) response object. It is entered only when
  \<open>response.id\<close> is truthy, so \<open>responseId\<close> is a string here. One reading \<open>now\<close> of
  the clock serves the whole callback.
\<close>

definition handlePrompt_complete :: "nat \<Rightarrow> string \<Rightarrow> string \<Rightarrow> string \<Rightarrow> state \<Rightarrow> state" where
  "handlePrompt_complete now p fullText responseId st =
     (let st1 = st\<lparr>lastResponseId := Some responseId\<rparr>;
          st2 = saveResponseToHistory now p fullText (Some responseId) st1
      in if fullText \<noteq> [] then
           (let st3 = ensureConversationId now st2;
                ctx = pushUserMessage p (conversationContext st3) @ [newAssistantMessage fullText];
                st4 = st3\<lparr>conversationContext := ctx\<rparr>;
                st5 = st4\<lparr>pausedConversationContext := conversationContext st4,
                         pausedConversationId := currentConversationId st4,
                         pausedConversation := True\<rparr>
            in saveState (st5\<lparr>conversationContext := []\<rparr>))
         else st2)"

text \<open>The code after the stream is drained; \<open>responseId\<close> is \<open>null\<close> when no event carried one.\<close>

definition handlePrompt_stream ::
  "nat \<Rightarrow> string \<Rightarrow> string \<Rightarrow> string option \<Rightarrow> state \<Rightarrow> state" where
  "handlePrompt_stream now p fullText responseId st =
     (if fullText \<noteq> [] then
        (let st1 = ensureConversationId now st;
             ctx = pushUserMessage p (conversationContext st1) @ [newAssistantMessage fullText];
             st2 = st1\<lparr>conversationContext := ctx\<rparr>;
             st3 = st2\<lparr>pausedConversationContext := conversationContext st2,
                      pausedConversationId := currentConversationId st2,
                      pausedConversation := True\<rparr>;
             st4 = (if truthy responseId
                    then saveResponseToHistory now p fullText responseId
                           (st3\<lparr>lastResponseId := responseId\<rparr>)
                    else (log ''No response ID received. Conversation continuity may be limited.'' st3)
                           \<lparr>lastResponseId := None\<rparr>)
         in saveState (st4\<lparr>conversationContext := []\<rparr>))
      else log ''Empty response received, conversation continuity may not work'' st)"

section \<open>The continuation resolver (\<open>continueConversation\<close>)\<close>

text \<open>
  \<open>historyIndex\<close> is \<open>null\<close>, or the number \<open>parseInt(arg, 10) - 1\<close>, which is \<open>NaN\<close>
  when the argument does not start with a number. Numbers are integers here: they are
  only compared with the length of a list.
\<close>

datatype jsnum = NaN | Num int

definition pair_context :: "'a entry_scheme \<Rightarrow> message list" where
  "pair_context r =
     [\<lparr>role = ''user'', content = prompt r\<rparr>, \<lparr>role = ''assistant'', content = fullResponse r\<rparr>]"

text \<open>\<open>pausedConversationContext.filter(msg => msg.role === "assistant").pop()\<close>\<close>

definition lastAssistantMessage :: "message list \<Rightarrow> message option" where
  "lastAssistantMessage ctx =
     (case filter (\<lambda>msg. role msg = ''assistant'') ctx of
        [] \<Rightarrow> None
      | m # ms \<Rightarrow> Some (last (m # ms)))"

definition valid_index :: "jsnum option \<Rightarrow> nat \<Rightarrow> bool" where
  "valid_index historyIndex n =
     (case historyIndex of
        Some (Num i) \<Rightarrow> 0 \<le> i \<and> i < int n
      | _ \<Rightarrow> False)"

definition index_of :: "jsnum option \<Rightarrow> nat" where
  "index_of historyIndex = (case historyIndex of Some (Num i) \<Rightarrow> nat i | _ \<Rightarrow> 0)"

text \<open>
  \<open>currentConversationId && responseHistory[currentConversationId]
     ? responseHistory[currentConversationId] : []\<close>
\<close>

definition currentResponses :: "state \<Rightarrow> entry list" where
  "currentResponses st =
     (case currentConversationId st of
        None \<Rightarrow> []
      | Some cid \<Rightarrow>
          if cid = [] then []
          else (case responseHistory st cid of None \<Rightarrow> [] | Some rs \<Rightarrow> rs))"

text \<open>
  The body of \<open>continueConversation\<close> is five blocks tried in order; each block is a
  definition here, and \<open>continueConversation\<close> is the chain of their guards.

  First block, inner part: the paused conversation's last response id is looked up again
  in its response history, by the text of its last assistant message. With no assistant
  message \<open>lastAssistantMessage?.content\<close> is \<open>undefined\<close>, which no entry's
  \<open>fullResponse\<close> equals.
\<close>

definition recoverLastResponseId :: "state \<Rightarrow> state" where
  "recoverLastResponseId st =
     (if length (pausedConversationContext st) \<ge> 2 then
        (case currentConversationId st of
           None \<Rightarrow> st
         | Some cid \<Rightarrow>
             if cid = [] then st
             else
               (case responseHistory st cid of
                  None \<Rightarrow> st
                | Some rs \<Rightarrow>
                    (case find (\<lambda>resp. Some (fullResponse resp) =
                                  map_option content
                                    (lastAssistantMessage (pausedConversationContext st))) rs of
                       None \<Rightarrow> st
                     | Some matchingResponse \<Rightarrow>
                         log (''Using response ID: '' @ id_prefix (entry_id matchingResponse) @ ''...'')
                           (st\<lparr>lastResponseId := Some (entry_id matchingResponse)\<rparr>))))
      else st)"

definition restoreCommandHistory :: "state \<Rightarrow> state" where
  "restoreCommandHistory st =
     (case currentConversationId st of
        None \<Rightarrow> st
      | Some cid \<Rightarrow>
          if cid = [] then st
          else (case conversationHistories st cid of
                  None \<Rightarrow> st
                | Some h \<Rightarrow> st\<lparr>commandHistory := h\<rparr>))"

definition resumePaused :: "state \<Rightarrow> state" where
  "resumePaused st =
     (let st1 = log ''Resuming paused conversation...'' st;
          st2 = st1\<lparr>conversationContext := pausedConversationContext st1,
                   currentConversationId := pausedConversationId st1\<rparr>;
          st3 = recoverLastResponseId st2;
          st4 = restoreCommandHistory st3
      in saveState (st4\<lparr>pausedConversation := False,
                        pausedConversationContext := [],
                        pausedConversationId := None\<rparr>))"

definition continueFromIndex :: "nat \<Rightarrow> nat \<Rightarrow> state \<Rightarrow> state" where
  "continueFromIndex now i st =
     (let selectedResponse = currentResponses st ! i;
          st1 = log (''Continuing from response #'' @ show_nat (i + 1)) st;
          st2 = ensureConversationId now
                  (st1\<lparr>lastResponseId := Some (entry_id selectedResponse)\<rparr>)
      in saveState (st2\<lparr>conversationContext := pair_context selectedResponse\<rparr>))"

definition continueFromRecent :: "state \<Rightarrow> state" where
  "continueFromRecent st =
     (let lastResponse = hd (currentResponses st);
          st1 = log ''Continuing from most recent response'' st
      in saveState (st1\<lparr>lastResponseId := Some (entry_id lastResponse),
                        conversationContext := pair_context lastResponse\<rparr>))"

definition continueFromGlobal :: "nat \<Rightarrow> state \<Rightarrow> state" where
  "continueFromGlobal now st =
     (let lastResponse = hd (allResponseHistory st);
          st1 = log ''Continuing from most recent response'' st
      in saveState (st1\<lparr>lastResponseId := Some (entry_id lastResponse),
                        currentConversationId := Some (new_conv_id now),
                        conversationContext := pair_context lastResponse\<rparr>))"

definition continueConversation :: "nat \<Rightarrow> jsnum option \<Rightarrow> state \<Rightarrow> bool \<times> state" where
  "continueConversation now historyIndex st =
     (if historyIndex = None \<and> pausedConversation st then (True, resumePaused st)
      else if valid_index historyIndex (length (currentResponses st))
      then (True, continueFromIndex now (index_of historyIndex) st)
      else if currentResponses st \<noteq> [] then (True, continueFromRecent st)
      else if allResponseHistory st \<noteq> [] then (True, continueFromGlobal now st)
      else (False, log ''No response history available to continue from.'' st))"

text \<open>
  \<open>parseInt(s, 10)\<close> on a word without white space: an optional sign, then the longest
  run of decimal digits; \<open>NaN\<close> when that run is empty.
\<close>

definition is_digit :: "char \<Rightarrow> bool" where
  "is_digit c = (c \<in> set ''0123456789'')"

definition digit_val :: "char \<Rightarrow> nat" where
  "digit_val c = length (takeWhile (\<lambda>d. d \<noteq> c) ''0123456789'')"

definition digits_val :: "string \<Rightarrow> nat" where
  "digits_val ds = foldl (\<lambda>a c. 10 * a + digit_val c) 0 ds"

definition parseInt :: "string \<Rightarrow> jsnum" where
  "parseInt s =
     (let (neg, body) =
            (case s of
               c # cs \<Rightarrow> if c = CHR ''-'' then (True, cs)
                          else if c = CHR ''+'' then (False, cs) else (False, s)
             | [] \<Rightarrow> (False, s));
          ds = takeWhile is_digit body
      in if ds = [] then NaN
         else Num (if neg then - int (digits_val ds) else int (digits_val ds)))"

definition minus_one :: "jsnum \<Rightarrow> jsnum" where
  "minus_one x = (case x of NaN \<Rightarrow> NaN | Num i \<Rightarrow> Num (i - 1))"

text \<open>
  The \<open>continue\<close> command of \<open>promptUser\<close> and \<open>handlePrompt\<close>; \<open>commandParts\<close> is the
  command line split at white space, \<open>commandParts[0]\<close> being \<open>continue\<close>.
\<close>

definition cmd_continue :: "nat \<Rightarrow> string list \<Rightarrow> state \<Rightarrow> bool \<times> state" where
  "cmd_continue now commandParts st =
     (let historyIndex =
            (if length commandParts > 1 then Some (minus_one (parseInt (commandParts ! 1)))
             else None)
      in continueConversation now historyIndex st)"

section \<open>Insertion sequences, persisted entries and scenario states\<close>

text \<open>
  A sequence of insertions into the history: each element is one call of
  \<open>saveResponseToHistory\<close>, with the conversation that is current at that moment (other
  functions change the current conversation between two calls, never the histories).
\<close>

fun recordAll :: "(string option \<times> nat \<times> string \<times> string \<times> string option) list \<Rightarrow> state \<Rightarrow> state" where
  "recordAll [] st = st"
| "recordAll ((c, now, p, r, rid) # xs) st =
     recordAll xs (saveResponseToHistory now p r rid (st\<lparr>currentConversationId := c\<rparr>))"

text \<open>The entry and the global entry that a recorded insertion creates.\<close>

definition entry_of :: "string option \<times> nat \<times> string \<times> string \<times> string option \<Rightarrow> entry" where
  "entry_of x = (case x of (c, now, p, r, rid) \<Rightarrow>
     \<lparr>prompt = p, response = truncate_response r, fullResponse = r,
      entry_id = the rid, timestamp = now\<rparr>)"

text \<open>The guard \<open>responseId && aiResponse && currentConversationId\<close>.\<close>

definition recorded :: "string option \<Rightarrow> string \<Rightarrow> state \<Rightarrow> bool" where
  "recorded rid r st = (truthy rid \<and> r \<noteq> [] \<and> truthy (currentConversationId st))"

definition gentry_of :: "string option \<times> nat \<times> string \<times> string \<times> string option \<Rightarrow> gentry" where
  "gentry_of x = with_conversationId (entry_of x) (the (fst x))"

text \<open>The insertion passes the guard of \<open>saveResponseToHistory\<close>, into conversation \<open>cid\<close>.\<close>

definition records_into :: "string \<Rightarrow> string option \<times> nat \<times> string \<times> string \<times> string option \<Rightarrow> bool" where
  "records_into cid x = (case x of (c, now, p, r, rid) \<Rightarrow>
     c = Some cid \<and> cid \<noteq> [] \<and> truthy rid \<and> r \<noteq> [])"


text \<open>No \<open>.json\<close> file of the directory is corrupt.\<close>

definition readable :: "(string \<times> 'a json_file) list \<Rightarrow> bool" where
  "readable es = (\<forall>(file, c) \<in> set es. suffix ''.json'' file \<longrightarrow> c \<noteq> Corrupt)"


text \<open>
  The store right after the directories were created; a conversation \<open>conv_1\<close> started on
  it; and the state after the exchange "hi" / "hello!" with response id \<open>resp_1\<close>.
\<close>

definition d0 :: disk where
  "d0 = \<lparr>stateFile = None, conversationsDir = Some [], responsesDir = Some []\<rparr>"

definition st_conv1 :: state where
  "st_conv1 = startNewConversation 1 (startCLI (initialState d0))"

definition st_hi :: state where
  "st_hi = handlePrompt_stream 2 ''hi'' ''hello!'' (Some ''resp_1'') st_conv1"

definition entry_hi :: entry where
  "entry_hi = \<lparr>prompt = ''hi'', response = ''hello!'', fullResponse = ''hello!'',
               entry_id = ''resp_1'', timestamp = 2\<rparr>"

definition context_hi :: "message list" where
  "context_hi = [\<lparr>role = ''user'', content = ''hi''\<rparr>,
                 \<lparr>role = ''assistant'', content = ''hello!''\<rparr>]"

text \<open>The files after that exchange.\<close>

definition disk_hi :: disk where
  "disk_hi =
     \<lparr>stateFile = Some (Parsed
        \<lparr>lastResponseId = Some ''resp_1'', conversationContext = [],
         currentConversationId = Some ''conv_1'', pausedConversation = True,
         pausedConversationContext = context_hi,
         pausedConversationId = Some ''conv_1''\<rparr>),
      conversationsDir = Some
        [(''conv_1.json'', Parsed \<lparr>conv_id = ''conv_1'', conv_context = [], history = []\<rparr>)],
      responsesDir = Some [(''conv_1.json'', Parsed [entry_hi])]\<rparr>"

text \<open>A conversation with three recorded responses and some unrelated active context.\<close>

definition three_entries :: "entry list" where
  "three_entries =
     [\<lparr>prompt = ''q3'', response = ''a3'', fullResponse = ''a3'', entry_id = ''resp_3'', timestamp = 30\<rparr>,
      \<lparr>prompt = ''q2'', response = ''a2'', fullResponse = ''a2'', entry_id = ''resp_2'', timestamp = 20\<rparr>,
      \<lparr>prompt = ''q1'', response = ''a1'', fullResponse = ''a1'', entry_id = ''resp_1'', timestamp = 10\<rparr>]"

definition st_three :: state where
  "st_three = st_conv1\<lparr>conversationContext := [\<lparr>role = ''user'', content = ''draft''\<rparr>],
                       responseHistory := [''conv_1'' \<mapsto> three_entries]\<rparr>"

text \<open>
  After \<open>st_hi\<close>: \<open>continue 1\<close>, then a second exchange "more" / "sure" with response id
  \<open>resp_2\<close> in the same conversation, then \<open>continue 2\<close>, which points \<open>lastResponseId\<close>
  back at \<open>resp_1\<close> while the four-message snapshot stays paused.
\<close>

definition entry_more :: entry where
  "entry_more = \<lparr>prompt = ''more'', response = ''sure'', fullResponse = ''sure'',
                 entry_id = ''resp_2'', timestamp = 4\<rparr>"

definition st_two :: state where
  "st_two = handlePrompt_stream 4 ''more'' ''sure'' (Some ''resp_2'')
              (snd (continueConversation 3 (Some (Num 0)) st_hi))"

definition st_back :: state where
  "st_back = snd (continueConversation 5 (Some (Num 1)) st_two)"

text \<open>The program started again on the files of \<open>st_hi\<close>.\<close>

definition st_restart :: state where
  "st_restart = startCLI (initialState disk_hi)"

text \<open>
  After \<open>st_hi\<close>: a new conversation, and an exchange whose stream carried no response id,
  so that the paused conversation \<open>conv_3\<close> has no response entry.
\<close>

definition st_noid :: state where
  "st_noid = handlePrompt_stream 4 ''next'' ''answer'' None (cmd_new 3 st_hi)"

text \<open>The files of \<open>st_hi\<close> with one more conversation file, which is corrupt.\<close>

definition disk_bad :: disk where
  "disk_bad = disk_hi\<lparr>conversationsDir := Some
     [(''conv_1.json'', Parsed \<lparr>conv_id = ''conv_1'', conv_context = [], history = []\<rparr>),
      (''conv_9.json'', Corrupt)]\<rparr>"

text \<open>
  A response of 101 characters, the entry recorded for it in \<open>conv_1\<close> at clock reading 5,
  the state after recording it, and that state after the command \<open>new\<close>.
\<close>

definition long_text :: string where
  "long_text = replicate 101 (CHR ''a'')"

definition entry_long :: entry where
  "entry_long = \<lparr>prompt = ''p'', response = replicate 100 (CHR ''a'') @ ''...'',
                 fullResponse = long_text, entry_id = ''resp_9'', timestamp = 5\<rparr>"

definition st_long :: state where
  "st_long = saveResponseToHistory 5 ''p'' long_text (Some ''resp_9'') st_conv1"

definition st_long_new :: state where
  "st_long_new = cmd_new 7 st_long"

text \<open>Fifty-one insertions into \<open>conv_1\<close>, at clock readings 0 to 50.\<close>

definition fifty_one :: "(string option \<times> nat \<times> string \<times> string \<times> string option) list" where
  "fifty_one = map (\<lambda>i. (Some ''conv_1'', i, ''p'', ''r'', Some ''id'')) [0..<51]"



section \<open>Frame lemmas\<close>

lemma log_fields [simp]:
  "lastResponseId (log m st) = lastResponseId st"
  "conversationContext (log m st) = conversationContext st"
  "currentConversationId (log m st) = currentConversationId st"
  "pausedConversation (log m st) = pausedConversation st"
  "pausedConversationContext (log m st) = pausedConversationContext st"
  "pausedConversationId (log m st) = pausedConversationId st"
  "commandHistory (log m st) = commandHistory st"
  "conversationHistories (log m st) = conversationHistories st"
  "responseHistory (log m st) = responseHistory st"
  "allResponseHistory (log m st) = allResponseHistory st"
  "fs (log m st) = fs st"
  "console (log m st) = console st @ [m]"
  by (simp_all add: log_def)

lemma saveState_fields [simp]:
  "lastResponseId (saveState st) = lastResponseId st"
  "conversationContext (saveState st) = conversationContext st"
  "currentConversationId (saveState st) = currentConversationId st"
  "pausedConversation (saveState st) = pausedConversation st"
  "pausedConversationContext (saveState st) = pausedConversationContext st"
  "pausedConversationId (saveState st) = pausedConversationId st"
  "commandHistory (saveState st) = commandHistory st"
  "conversationHistories (saveState st) = conversationHistories st"
  "responseHistory (saveState st) = responseHistory st"
  "allResponseHistory (saveState st) = allResponseHistory st"
  by (simp_all add: saveState_def Let_def split: option.splits)

lemma saveResponseToHistory_session [simp]:
  "lastResponseId (saveResponseToHistory now p r i st) = lastResponseId st"
  "conversationContext (saveResponseToHistory now p r i st) = conversationContext st"
  "currentConversationId (saveResponseToHistory now p r i st) = currentConversationId st"
  "pausedConversation (saveResponseToHistory now p r i st) = pausedConversation st"
  "pausedConversationContext (saveResponseToHistory now p r i st) = pausedConversationContext st"
  "pausedConversationId (saveResponseToHistory now p r i st) = pausedConversationId st"
  "commandHistory (saveResponseToHistory now p r i st) = commandHistory st"
  "conversationHistories (saveResponseToHistory now p r i st) = conversationHistories st"
  by (simp_all add: saveResponseToHistory_def Let_def split: option.splits)

lemma ensureConversationId_fields [simp]:
  "lastResponseId (ensureConversationId now st) = lastResponseId st"
  "conversationContext (ensureConversationId now st) = conversationContext st"
  "currentConversationId (ensureConversationId now st) =
     (if truthy (currentConversationId st) then currentConversationId st
      else Some (new_conv_id now))"
  "pausedConversation (ensureConversationId now st) = pausedConversation st"
  "pausedConversationContext (ensureConversationId now st) = pausedConversationContext st"
  "pausedConversationId (ensureConversationId now st) = pausedConversationId st"
  "responseHistory (ensureConversationId now st) = responseHistory st"
  "allResponseHistory (ensureConversationId now st) = allResponseHistory st"
  by (simp_all add: ensureConversationId_def)



lemma handlePrompt_complete_fields:
  assumes "fullText \<noteq> []"
  shows "pausedConversationContext (handlePrompt_complete now p fullText rid st) =
           pushUserMessage p (conversationContext st) @ [newAssistantMessage fullText]"
    and "pausedConversationId (handlePrompt_complete now p fullText rid st) =
           currentConversationId (handlePrompt_complete now p fullText rid st)"
    and "pausedConversation (handlePrompt_complete now p fullText rid st)"
    and "conversationContext (handlePrompt_complete now p fullText rid st) = []"
    and "currentConversationId (handlePrompt_complete now p fullText rid st) =
           (if truthy (currentConversationId st) then currentConversationId st
            else Some (new_conv_id now))"
  using assms by (simp_all add: handlePrompt_complete_def Let_def)

lemma handlePrompt_stream_fields:
  assumes "fullText \<noteq> []"
  shows "pausedConversationContext (handlePrompt_stream now p fullText responseId st) =
           pushUserMessage p (conversationContext st) @ [newAssistantMessage fullText]"
    and "pausedConversationId (handlePrompt_stream now p fullText responseId st) =
           currentConversationId (handlePrompt_stream now p fullText responseId st)"
    and "pausedConversation (handlePrompt_stream now p fullText responseId st)"
    and "conversationContext (handlePrompt_stream now p fullText responseId st) = []"
    and "currentConversationId (handlePrompt_stream now p fullText responseId st) =
           (if truthy (currentConversationId st) then currentConversationId st
            else Some (new_conv_id now))"
  using assms by (simp_all add: handlePrompt_stream_def Let_def)

lemma handlePrompt_snapshot_length:
  assumes "fullText \<noteq> []"
  shows "2 \<le> length (pausedConversationContext (handlePrompt_complete now p fullText rid st))"
    and "2 \<le> length (pausedConversationContext (handlePrompt_stream now p fullText responseId st))"
  by (simp_all add: handlePrompt_complete_fields(1) [OF assms]
      handlePrompt_stream_fields(1) [OF assms] pushUserMessage_def Suc_le_eq)



section \<open>Conversation ids are injective in the clock\<close>

lemma distinct_digits: "distinct ''0123456789''"
  by simp

lemma digit_char_inj:
  assumes "a < 10" "b < 10" "digit_char a = digit_char b"
  shows "a = b"
proof -
  have "a < length ''0123456789''" "b < length ''0123456789''"
    using assms by simp_all
  then show ?thesis
    using assms(3) distinct_digits unfolding digit_char_def
    by (simp only: nth_eq_iff_index_eq)
qed

lemma show_nat_nonempty: "show_nat n \<noteq> []"
  by (subst show_nat.simps) simp

lemma show_nat_nonempty' [simp]: "[] \<noteq> show_nat n"
  by (subst show_nat.simps) simp

lemma show_nat_small: "n < 10 \<Longrightarrow> show_nat n = [digit_char n]"
  by (subst show_nat.simps) simp

lemma show_nat_big: "\<not> n < 10 \<Longrightarrow> show_nat n = show_nat (n div 10) @ [digit_char (n mod 10)]"
  by (subst show_nat.simps) simp

lemma show_nat_inj: "show_nat a = show_nat b \<Longrightarrow> a = b"
proof (induction a arbitrary: b rule: show_nat.induct)
  case (1 n)
  show ?case
  proof (cases "n < 10")
    case small: True
    show ?thesis
    proof (cases "b < 10")
      case True
      with small "1.prems" show ?thesis
        by (simp add: show_nat_small digit_char_inj)
    next
      case False
      with small "1.prems" show ?thesis
        by (simp add: show_nat_small show_nat_big show_nat_nonempty)
    qed
  next
    case big: False
    show ?thesis
    proof (cases "b < 10")
      case True
      with big "1.prems" show ?thesis
        by (simp add: show_nat_small show_nat_big show_nat_nonempty)
    next
      case False
      with big "1.prems" have e: "show_nat (n div 10) = show_nat (b div 10)"
        and d: "digit_char (n mod 10) = digit_char (b mod 10)"
        by (simp_all add: show_nat_big)
      from "1.IH" [OF big e] have q: "n div 10 = b div 10" .
      have "n mod 10 = b mod 10"
        by (rule digit_char_inj [OF _ _ d]) simp_all
      with q show ?thesis
        by (metis div_mult_mod_eq)
    qed
  qed
qed

lemma new_conv_id_inj: "new_conv_id a = new_conv_id b \<Longrightarrow> a = b"
  by (simp add: new_conv_id_def show_nat_inj)

lemma takeWhile_neq_nth:
  "distinct xs \<Longrightarrow> d < length xs \<Longrightarrow> length (takeWhile (\<lambda>x. x \<noteq> xs ! d) xs) = d"
proof (induction xs arbitrary: d)
  case Nil
  then show ?case by simp
next
  case (Cons x xs)
  show ?case
  proof (cases d)
    case 0
    then show ?thesis by simp
  next
    case (Suc d')
    with Cons.prems have "xs ! d' \<in> set xs" "x \<notin> set xs"
      by simp_all
    then have "x \<noteq> xs ! d'"
      by blast
    with Cons.IH [of d'] Cons.prems Suc show ?thesis
      by simp
  qed
qed

lemma digit_val_digit_char: "d < 10 \<Longrightarrow> digit_val (digit_char d) = d"
  unfolding digit_val_def digit_char_def
  by (rule takeWhile_neq_nth [OF distinct_digits]) simp

lemma is_digit_digit_char: "d < 10 \<Longrightarrow> is_digit (digit_char d)"
  unfolding is_digit_def digit_char_def by (intro nth_mem) simp

lemma show_nat_digits: "\<forall>c \<in> set (show_nat n). is_digit c"
proof (induction n rule: show_nat.induct)
  case (1 n)
  show ?case
  proof (cases "n < 10")
    case True
    then show ?thesis
      by (simp add: show_nat_small is_digit_digit_char)
  next
    case False
    then show ?thesis
      using "1.IH" by (simp add: show_nat_big is_digit_digit_char)
  qed
qed

lemma digits_val_snoc: "digits_val (ds @ [c]) = 10 * digits_val ds + digit_val c"
  by (simp add: digits_val_def)

lemma digits_val_show_nat: "digits_val (show_nat n) = n"
proof (induction n rule: show_nat.induct)
  case (1 n)
  show ?case
  proof (cases "n < 10")
    case True
    then show ?thesis
      by (simp add: show_nat_small digits_val_def digit_val_digit_char)
  next
    case False
    then show ?thesis
      using "1.IH" by (simp add: show_nat_big digits_val_snoc digit_val_digit_char)
  qed
qed

lemma parseInt_show_nat: "parseInt (show_nat n) = Num (int n)"
proof -
  obtain c cs where s: "show_nat n = c # cs"
    using show_nat_nonempty [of n] by (cases "show_nat n") simp_all
  with show_nat_digits [of n] have "is_digit c"
    by simp
  then have c: "c \<noteq> CHR ''-''" "c \<noteq> CHR ''+''"
    by (auto simp: is_digit_def)
  have t: "takeWhile is_digit (show_nat n) = show_nat n"
    using show_nat_digits [of n] by (simp add: takeWhile_eq_all_conv)
  have "parseInt (show_nat n) =
      (let ds = takeWhile is_digit (show_nat n)
       in if ds = [] then NaN else Num (int (digits_val ds)))"
    unfolding parseInt_def s using c by simp
  then show ?thesis
    by (simp add: t digits_val_show_nat show_nat_nonempty)
qed

lemma cmd_continue_index:
  "cmd_continue now [c, show_nat n] st = continueConversation now (Some (Num (int n - 1))) st"
  by (simp add: cmd_continue_def parseInt_show_nat minus_one_def)

section \<open>The resolver\<close>

lemma recoverLastResponseId_fields [simp]:
  "conversationContext (recoverLastResponseId st) = conversationContext st"
  "currentConversationId (recoverLastResponseId st) = currentConversationId st"
  "pausedConversation (recoverLastResponseId st) = pausedConversation st"
  "pausedConversationContext (recoverLastResponseId st) = pausedConversationContext st"
  "pausedConversationId (recoverLastResponseId st) = pausedConversationId st"
  "conversationHistories (recoverLastResponseId st) = conversationHistories st"
  "responseHistory (recoverLastResponseId st) = responseHistory st"
  "allResponseHistory (recoverLastResponseId st) = allResponseHistory st"
  by (simp_all add: recoverLastResponseId_def split: option.splits)

lemma restoreCommandHistory_fields [simp]:
  "lastResponseId (restoreCommandHistory st) = lastResponseId st"
  "conversationContext (restoreCommandHistory st) = conversationContext st"
  "currentConversationId (restoreCommandHistory st) = currentConversationId st"
  "pausedConversation (restoreCommandHistory st) = pausedConversation st"
  "pausedConversationContext (restoreCommandHistory st) = pausedConversationContext st"
  "pausedConversationId (restoreCommandHistory st) = pausedConversationId st"
  "conversationHistories (restoreCommandHistory st) = conversationHistories st"
  "responseHistory (restoreCommandHistory st) = responseHistory st"
  "allResponseHistory (restoreCommandHistory st) = allResponseHistory st"
  by (simp_all add: restoreCommandHistory_def split: option.splits)

lemma recoverLastResponseId_found:
  assumes "2 \<le> length (pausedConversationContext st)"
    and "currentConversationId st = Some cid" and "cid \<noteq> []"
    and "responseHistory st cid = Some rs"
    and "lastAssistantMessage (pausedConversationContext st) = Some m"
    and "find (\<lambda>resp. fullResponse resp = content m) rs = Some r"
  shows "lastResponseId (recoverLastResponseId st) = Some (entry_id r)"
  using assms by (simp add: recoverLastResponseId_def)

lemma recoverLastResponseId_cases:
  "lastResponseId (recoverLastResponseId st) = lastResponseId st
   \<or> (\<exists>cid rs m r. currentConversationId st = Some cid \<and> responseHistory st cid = Some rs
        \<and> lastAssistantMessage (pausedConversationContext st) = Some m
        \<and> find (\<lambda>resp. fullResponse resp = content m) rs = Some r
        \<and> lastResponseId (recoverLastResponseId st) = Some (entry_id r))"
proof (cases "lastAssistantMessage (pausedConversationContext st)")
  case None
  have "find (\<lambda>resp::entry. False) rs = None" for rs
    by (induction rs) simp_all
  with None show ?thesis
    by (simp add: recoverLastResponseId_def split: option.splits)
next
  case (Some m)
  then show ?thesis
    by (simp add: recoverLastResponseId_def split: option.splits)
qed

lemma resumePaused_fields:
  "conversationContext (resumePaused st) = pausedConversationContext st"
  "currentConversationId (resumePaused st) = pausedConversationId st"
  "\<not> pausedConversation (resumePaused st)"
  "pausedConversationContext (resumePaused st) = []"
  "pausedConversationId (resumePaused st) = None"
  "responseHistory (resumePaused st) = responseHistory st"
  "allResponseHistory (resumePaused st) = allResponseHistory st"
  by (simp_all add: resumePaused_def Let_def)

lemma resumePaused_lastResponseId:
  "lastResponseId (resumePaused st) =
     lastResponseId (recoverLastResponseId
       ((log ''Resuming paused conversation...'' st)
          \<lparr>conversationContext := pausedConversationContext st,
           currentConversationId := pausedConversationId st\<rparr>))"
  by (simp add: resumePaused_def Let_def)

lemma lastAssistantMessage_filter:
  "lastAssistantMessage ctx =
     (if filter (\<lambda>msg. role msg = ''assistant'') ctx = [] then None
      else Some (last (filter (\<lambda>msg. role msg = ''assistant'') ctx)))"
  by (simp add: lastAssistantMessage_def split: list.splits)

lemma lastAssistantMessage_most_recent:
  "(lastAssistantMessage ctx = Some m) =
     (\<exists>pre post. ctx = pre @ m # post \<and> role m = ''assistant''
        \<and> (\<forall>x \<in> set post. role x \<noteq> ''assistant''))"
proof
  assume l: "lastAssistantMessage ctx = Some m"
  then have "filter (\<lambda>msg. role msg = ''assistant'') ctx \<noteq> []"
    by (auto simp: lastAssistantMessage_filter split: if_splits)
  then have "\<exists>x \<in> set ctx. role x = ''assistant''"
    by (simp add: filter_empty_conv)
  from split_list_last_prop [OF this] obtain pre x post where
    s: "ctx = pre @ x # post" "role x = ''assistant''" "\<forall>z \<in> set post. role z \<noteq> ''assistant''"
    by blast
  then have "filter (\<lambda>msg. role msg = ''assistant'') post = []"
    by (simp add: filter_empty_conv)
  with s(1,2) have "lastAssistantMessage ctx = Some x"
    by (simp add: lastAssistantMessage_filter)
  with l have "x = m"
    by simp
  with s show "\<exists>pre post. ctx = pre @ m # post \<and> role m = ''assistant''
        \<and> (\<forall>x \<in> set post. role x \<noteq> ''assistant'')"
    by blast
next
  assume "\<exists>pre post. ctx = pre @ m # post \<and> role m = ''assistant''
        \<and> (\<forall>x \<in> set post. role x \<noteq> ''assistant'')"
  then obtain pre post where
    s: "ctx = pre @ m # post" "role m = ''assistant''" "\<forall>z \<in> set post. role z \<noteq> ''assistant''"
    by blast
  then have "filter (\<lambda>msg. role msg = ''assistant'') post = []"
    by (simp add: filter_empty_conv)
  with s(1,2) show "lastAssistantMessage ctx = Some m"
    by (simp add: lastAssistantMessage_filter)
qed

text \<open>
  Claim C3. \<open>continueConversation(null)\<close> with a paused conversation succeeds, restores the
  active context to the paused snapshot and the current conversation id to the paused id,
  and clears the snapshot. When the snapshot has at least two messages (every snapshot taken
  by \<open>handlePrompt\<close> has, see \<open>handlePrompt_snapshot_length\<close>), \<open>m\<close> is its most recent
  assistant message (an assistant message with no assistant message after it) and the
  paused conversation's response history holds an entry whose full response text is the
  content of \<open>m\<close>, then \<open>lastResponseId\<close> becomes the id of the first such entry, whatever
  it was before. \<open>lastResponseId\<close> changes in no other way.
\<close>
theorem implicit_resume:
  assumes "pausedConversation st"
  shows "fst (continueConversation now None st)
       \<and> conversationContext (snd (continueConversation now None st)) = pausedConversationContext st
       \<and> currentConversationId (snd (continueConversation now None st)) = pausedConversationId st
       \<and> \<not> pausedConversation (snd (continueConversation now None st))
       \<and> pausedConversationContext (snd (continueConversation now None st)) = []
       \<and> pausedConversationId (snd (continueConversation now None st)) = None
       \<and> (\<forall>cid rs pre m post r.
             2 \<le> length (pausedConversationContext st) \<longrightarrow>
             pausedConversationId st = Some cid \<longrightarrow> cid \<noteq> [] \<longrightarrow>
             responseHistory st cid = Some rs \<longrightarrow>
             pausedConversationContext st = pre @ m # post \<longrightarrow>
             role m = ''assistant'' \<longrightarrow>
             (\<forall>x \<in> set post. role x \<noteq> ''assistant'') \<longrightarrow>
             find (\<lambda>resp. fullResponse resp = content m) rs = Some r \<longrightarrow>
             lastResponseId (snd (continueConversation now None st)) = Some (entry_id r))
       \<and> (lastResponseId (snd (continueConversation now None st)) = lastResponseId st
          \<or> (\<exists>cid rs pre m post r.
                pausedConversationId st = Some cid \<and> responseHistory st cid = Some rs
              \<and> pausedConversationContext st = pre @ m # post
              \<and> role m = ''assistant''
              \<and> (\<forall>x \<in> set post. role x \<noteq> ''assistant'')
              \<and> find (\<lambda>resp. fullResponse resp = content m) rs = Some r
              \<and> lastResponseId (snd (continueConversation now None st)) = Some (entry_id r)))"
proof -
  have c: "continueConversation now None st = (True, resumePaused st)"
    using assms by (simp add: continueConversation_def)
  have scan: "lastResponseId (resumePaused st) = Some (entry_id r)"
    if "2 \<le> length (pausedConversationContext st)" "pausedConversationId st = Some cid"
      "cid \<noteq> []" "responseHistory st cid = Some rs"
      "pausedConversationContext st = pre @ m # post" "role m = ''assistant''"
      "\<forall>x \<in> set post. role x \<noteq> ''assistant''"
      "find (\<lambda>resp. fullResponse resp = content m) rs = Some r" for cid rs pre m post r
  proof -
    have "lastAssistantMessage (pausedConversationContext st) = Some m"
      unfolding lastAssistantMessage_most_recent using that(5-7) by blast
    then show ?thesis
      unfolding resumePaused_lastResponseId
      by (intro recoverLastResponseId_found [where cid = cid and rs = rs and m = m])
         (simp_all add: that(1-4,8))
  qed
  have only: "lastResponseId (resumePaused st) = lastResponseId st
          \<or> (\<exists>cid rs pre m post r.
                pausedConversationId st = Some cid \<and> responseHistory st cid = Some rs
              \<and> pausedConversationContext st = pre @ m # post
              \<and> role m = ''assistant''
              \<and> (\<forall>x \<in> set post. role x \<noteq> ''assistant'')
              \<and> find (\<lambda>resp. fullResponse resp = content m) rs = Some r
              \<and> lastResponseId (resumePaused st) = Some (entry_id r))"
  proof (cases "lastResponseId (resumePaused st) = lastResponseId st")
    case True
    then show ?thesis by blast
  next
    case False
    with recoverLastResponseId_cases [of "(log ''Resuming paused conversation...'' st)
          \<lparr>conversationContext := pausedConversationContext st,
           currentConversationId := pausedConversationId st\<rparr>"]
    obtain cid rs m r where
      h: "pausedConversationId st = Some cid" "responseHistory st cid = Some rs"
        "lastAssistantMessage (pausedConversationContext st) = Some m"
        "find (\<lambda>resp. fullResponse resp = content m) rs = Some r"
        "lastResponseId (resumePaused st) = Some (entry_id r)"
      unfolding resumePaused_lastResponseId by auto
    from h(3) obtain pre post where
      "pausedConversationContext st = pre @ m # post" "role m = ''assistant''"
      "\<forall>x \<in> set post. role x \<noteq> ''assistant''"
      unfolding lastAssistantMessage_most_recent by blast
    with h show ?thesis
      by blast
  qed
  have scan_all: "\<forall>cid rs pre m post r.
             2 \<le> length (pausedConversationContext st) \<longrightarrow>
             pausedConversationId st = Some cid \<longrightarrow> cid \<noteq> [] \<longrightarrow>
             responseHistory st cid = Some rs \<longrightarrow>
             pausedConversationContext st = pre @ m # post \<longrightarrow>
             role m = ''assistant'' \<longrightarrow>
             (\<forall>x \<in> set post. role x \<noteq> ''assistant'') \<longrightarrow>
             find (\<lambda>resp. fullResponse resp = content m) rs = Some r \<longrightarrow>
             lastResponseId (resumePaused st) = Some (entry_id r)"
    using scan by blast
  have restored: "conversationContext (resumePaused st) = pausedConversationContext st
       \<and> currentConversationId (resumePaused st) = pausedConversationId st
       \<and> \<not> pausedConversation (resumePaused st)
       \<and> pausedConversationContext (resumePaused st) = []
       \<and> pausedConversationId (resumePaused st) = None"
    by (simp add: resumePaused_fields)
  show ?thesis
    unfolding c fst_conv snd_conv using restored scan_all only by blast
qed

lemma continueFromIndex_fields:
  "lastResponseId (continueFromIndex now i st) = Some (entry_id (currentResponses st ! i))"
  "conversationContext (continueFromIndex now i st) = pair_context (currentResponses st ! i)"
  "currentConversationId (continueFromIndex now i st) =
     (if truthy (currentConversationId st) then currentConversationId st
      else Some (new_conv_id now))"
  "pausedConversation (continueFromIndex now i st) = pausedConversation st"
  "pausedConversationContext (continueFromIndex now i st) = pausedConversationContext st"
  "pausedConversationId (continueFromIndex now i st) = pausedConversationId st"
  by (simp_all add: continueFromIndex_def Let_def)

lemma continueFromRecent_fields:
  "lastResponseId (continueFromRecent st) = Some (entry_id (hd (currentResponses st)))"
  "conversationContext (continueFromRecent st) = pair_context (hd (currentResponses st))"
  "currentConversationId (continueFromRecent st) = currentConversationId st"
  "pausedConversation (continueFromRecent st) = pausedConversation st"
  "pausedConversationContext (continueFromRecent st) = pausedConversationContext st"
  "pausedConversationId (continueFromRecent st) = pausedConversationId st"
  by (simp_all add: continueFromRecent_def Let_def)

lemma continueFromGlobal_fields:
  "lastResponseId (continueFromGlobal now st) = Some (entry_id (hd (allResponseHistory st)))"
  "conversationContext (continueFromGlobal now st) = pair_context (hd (allResponseHistory st))"
  "currentConversationId (continueFromGlobal now st) = Some (new_conv_id now)"
  "pausedConversation (continueFromGlobal now st) = pausedConversation st"
  "pausedConversationContext (continueFromGlobal now st) = pausedConversationContext st"
  "pausedConversationId (continueFromGlobal now st) = pausedConversationId st"
  by (simp_all add: continueFromGlobal_def Let_def)

lemma valid_index_Num: "valid_index (Some (Num i)) n = (0 \<le> i \<and> i < int n)"
  by (simp add: valid_index_def)

lemma valid_index_empty: "\<not> valid_index h 0"
  by (simp add: valid_index_def split: option.splits jsnum.splits)

lemma continueConversation_explicit:
  assumes "\<not> (h = None \<and> pausedConversation st)"
  shows "continueConversation now h st =
     (if valid_index h (length (currentResponses st))
      then (True, continueFromIndex now (index_of h) st)
      else if currentResponses st \<noteq> [] then (True, continueFromRecent st)
      else if allResponseHistory st \<noteq> [] then (True, continueFromGlobal now st)
      else (False, log ''No response history available to continue from.'' st))"
proof -
  from assms have "(h = None \<and> pausedConversation st) = False"
    by blast
  then show ?thesis
    unfolding continueConversation_def by (simp only: if_False)
qed

text \<open>
  Claim C4, as amended. In a current conversation with response list \<open>rs\<close> and for a
  1-based position \<open>1 \<le> n \<le> length rs\<close> (passed as \<open>historyIndex = n - 1\<close>, which is what
  the command \<open>continue n\<close> passes), the resolver succeeds, sets \<open>lastResponseId\<close> to the id
  of entry number \<open>n\<close> and replaces the active context with exactly two messages: the
  entry's prompt as the user turn and the entry's \<open>fullResponse\<close>, the full response text,
  as the assistant turn (not its \<open>response\<close> field, which is the display form). The
  current conversation stays.
\<close>
theorem continue_by_index:
  assumes "currentConversationId st = Some cid" and "cid \<noteq> []"
    and "responseHistory st cid = Some rs" and "1 \<le> n" and "n \<le> length rs"
  shows "fst (continueConversation now (Some (Num (int n - 1))) st)
       \<and> lastResponseId (snd (continueConversation now (Some (Num (int n - 1))) st)) =
           Some (entry_id (rs ! (n - 1)))
       \<and> conversationContext (snd (continueConversation now (Some (Num (int n - 1))) st)) =
           [\<lparr>role = ''user'', content = prompt (rs ! (n - 1))\<rparr>,
            \<lparr>role = ''assistant'', content = fullResponse (rs ! (n - 1))\<rparr>]
       \<and> currentConversationId (snd (continueConversation now (Some (Num (int n - 1))) st)) =
           Some cid
       \<and> cmd_continue now [''continue'', show_nat n] st =
           continueConversation now (Some (Num (int n - 1))) st"
proof -
  have cr: "currentResponses st = rs"
    using assms by (simp add: currentResponses_def)
  have v: "valid_index (Some (Num (int n - 1))) (length (currentResponses st))"
    using assms by (simp add: cr valid_index_Num)
  have i: "index_of (Some (Num (int n - 1))) = n - 1"
    using assms by (simp add: index_of_def nat_diff_distrib')
  have c: "continueConversation now (Some (Num (int n - 1))) st =
      (True, continueFromIndex now (n - 1) st)"
    using v by (simp add: continueConversation_def i)
  show ?thesis
    unfolding c cmd_continue_index using assms(1,2)
    by (simp add: continueFromIndex_fields cr pair_context_def)
qed

text \<open>
  Claim C5, as amended. An explicit selector that is not a valid position of the current
  conversation's response list is not rejected: the resolver falls through to the most
  recent entry of the current conversation, and with none to the most recent entry of the
  global history. Only when both are empty does it return \<open>false\<close>, print
  "No response history available to continue from." and leave the state as it was (the
  console line apart).
\<close>
theorem bad_index_falls_through:
  assumes "h \<noteq> None" and "\<not> valid_index h (length (currentResponses st))"
  shows "(currentResponses st = [] \<and> allResponseHistory st = [] \<longrightarrow>
            continueConversation now h st =
              (False, st\<lparr>console := console st @
                 [''No response history available to continue from.'']\<rparr>))
       \<and> (currentResponses st \<noteq> [] \<longrightarrow>
            fst (continueConversation now h st)
            \<and> lastResponseId (snd (continueConversation now h st)) =
                Some (entry_id (hd (currentResponses st)))
            \<and> conversationContext (snd (continueConversation now h st)) =
                pair_context (hd (currentResponses st)))
       \<and> (currentResponses st = [] \<and> allResponseHistory st \<noteq> [] \<longrightarrow>
            fst (continueConversation now h st)
            \<and> lastResponseId (snd (continueConversation now h st)) =
                Some (entry_id (hd (allResponseHistory st)))
            \<and> conversationContext (snd (continueConversation now h st)) =
                pair_context (hd (allResponseHistory st)))"
proof -
  from assms(1) have e: "\<not> (h = None \<and> pausedConversation st)"
    by blast
  show ?thesis
    unfolding continueConversation_explicit [OF e] using assms(2)
    by (simp add: continueFromRecent_fields continueFromGlobal_fields log_def
        valid_index_empty)
qed

text \<open>
  Claim C8, as amended. When the implicit resume does not apply (the selector is explicit,
  or nothing is paused), the current conversation has no response entries (or there is no
  current conversation) and the global history is not empty, the resolver succeeds, takes
  the first (most recent) global entry, sets the current conversation id to the fresh
  \<open>conv_<now>\<close> and the active context to that entry's prompt and full response text
  (\<open>fullResponse\<close>). The new id differs from the entry's conversation id whenever that one
  was minted at another clock reading.
\<close>
theorem global_fallback:
  assumes "\<not> (h = None \<and> pausedConversation st)"
    and "currentResponses st = []" and "allResponseHistory st = g # gs"
  shows "fst (continueConversation now h st)
       \<and> lastResponseId (snd (continueConversation now h st)) = Some (entry_id g)
       \<and> currentConversationId (snd (continueConversation now h st)) = Some (new_conv_id now)
       \<and> conversationContext (snd (continueConversation now h st)) =
           [\<lparr>role = ''user'', content = prompt g\<rparr>,
            \<lparr>role = ''assistant'', content = fullResponse g\<rparr>]
       \<and> (\<forall>t. conversationId g = new_conv_id t \<longrightarrow> t \<noteq> now \<longrightarrow>
             currentConversationId (snd (continueConversation now h st)) \<noteq>
               Some (conversationId g))"
proof -
  have c: "continueConversation now h st = (True, continueFromGlobal now st)"
    unfolding continueConversation_explicit [OF assms(1)]
    using assms(2,3) by (simp add: valid_index_empty)
  show ?thesis
    unfolding c using assms(3) new_conv_id_inj
    by (auto simp add: continueFromGlobal_fields pair_context_def)
qed

text \<open>
  The condition on the clock is needed: an entry whose conversation id is \<open>conv_<now>\<close>
  gets its own conversation id back.
\<close>

lemma same_clock_reuses_id:
  assumes "\<not> (h = None \<and> pausedConversation st)"
    and "currentResponses st = []" and "allResponseHistory st = g # gs"
    and "conversationId g = new_conv_id now"
  shows "currentConversationId (snd (continueConversation now h st)) = Some (conversationId g)"
  unfolding continueConversation_explicit [OF assms(1)]
  using assms(2-4) by (simp add: valid_index_empty continueFromGlobal_fields)

text \<open>
  Claim C10. Every resolver path but the implicit resume leaves \<open>pausedConversation\<close>,
  \<open>pausedConversationContext\<close> and \<open>pausedConversationId\<close> as they were, so a paused
  conversation is still restored by a later \<open>continueConversation(null)\<close>; the implicit
  resume clears the three fields.
\<close>
theorem paused_snapshot_frame:
  "(\<not> (h = None \<and> pausedConversation st) \<longrightarrow>
      pausedConversation (snd (continueConversation now h st)) = pausedConversation st
      \<and> pausedConversationContext (snd (continueConversation now h st)) =
          pausedConversationContext st
      \<and> pausedConversationId (snd (continueConversation now h st)) = pausedConversationId st
      \<and> (pausedConversation st \<longrightarrow>
           conversationContext
             (snd (continueConversation now' None (snd (continueConversation now h st)))) =
               pausedConversationContext st
           \<and> currentConversationId
             (snd (continueConversation now' None (snd (continueConversation now h st)))) =
               pausedConversationId st))
   \<and> (h = None \<and> pausedConversation st \<longrightarrow>
      \<not> pausedConversation (snd (continueConversation now h st))
      \<and> pausedConversationContext (snd (continueConversation now h st)) = []
      \<and> pausedConversationId (snd (continueConversation now h st)) = None)"
proof -
  have frame:
    "pausedConversation (snd (continueConversation now h st)) = pausedConversation st
     \<and> pausedConversationContext (snd (continueConversation now h st)) =
         pausedConversationContext st
     \<and> pausedConversationId (snd (continueConversation now h st)) = pausedConversationId st"
    if "\<not> (h = None \<and> pausedConversation st)"
    unfolding continueConversation_explicit [OF that]
    by (simp add: continueFromIndex_fields continueFromRecent_fields
        continueFromGlobal_fields)
  have later:
    "conversationContext (snd (continueConversation now' None st')) = pausedConversationContext st'
     \<and> currentConversationId (snd (continueConversation now' None st')) = pausedConversationId st'"
    if "pausedConversation st'" for st'
    using that by (simp add: continueConversation_def resumePaused_fields)
  have clear:
    "\<not> pausedConversation (snd (continueConversation now h st))
     \<and> pausedConversationContext (snd (continueConversation now h st)) = []
     \<and> pausedConversationId (snd (continueConversation now h st)) = None"
    if "h = None \<and> pausedConversation st"
    using that by (simp add: continueConversation_def resumePaused_fields)
  have again:
    "conversationContext
       (snd (continueConversation now' None (snd (continueConversation now h st)))) =
         pausedConversationContext st
     \<and> currentConversationId
       (snd (continueConversation now' None (snd (continueConversation now h st)))) =
         pausedConversationId st"
    if a: "\<not> (h = None \<and> pausedConversation st)" and p: "pausedConversation st"
  proof -
    from frame [OF a] p have "pausedConversation (snd (continueConversation now h st))"
      by simp
    from later [OF this] frame [OF a] show ?thesis
      by simp
  qed
  show ?thesis
    using frame clear again
    by (cases "h = None \<and> pausedConversation st") auto
qed

section \<open>History capacity\<close>

lemma map_of_writeFile: "map_of (writeFile name v es) name = Some (Parsed v)"
  by (induction es) auto

lemma map_of_writeFile_other: "n \<noteq> name \<Longrightarrow> map_of (writeFile name v es) n = map_of es n"
  by (induction es) auto

lemma saveResponseToHistory_skip:
  "\<not> recorded rid r st \<Longrightarrow> saveResponseToHistory now p r rid st = st"
  by (cases rid; cases "currentConversationId st")
     (auto simp add: recorded_def saveResponseToHistory_def)

lemma saveResponseToHistory_recorded:
  assumes "rid \<noteq> []" "r \<noteq> []" "currentConversationId st = Some cid" "cid \<noteq> []"
  shows "responseHistory (saveResponseToHistory now p r (Some rid) st) =
           (responseHistory st)(cid \<mapsto> take MAX_HISTORY
              (\<lparr>prompt = p, response = truncate_response r, fullResponse = r,
                entry_id = rid, timestamp = now\<rparr>
               # (case responseHistory st cid of Some rs \<Rightarrow> rs | None \<Rightarrow> [])))"
    and "allResponseHistory (saveResponseToHistory now p r (Some rid) st) =
           take (MAX_HISTORY * 5)
             (with_conversationId
                \<lparr>prompt = p, response = truncate_response r, fullResponse = r,
                 entry_id = rid, timestamp = now\<rparr> cid
              # allResponseHistory st)"
  using assms
  by (simp_all add: saveResponseToHistory_def Let_def log_def split: option.splits)

lemma handlePrompt_stream_recorded:
  assumes "t \<noteq> []" "rid \<noteq> []" "currentConversationId st = Some cid" "cid \<noteq> []"
  shows "responseHistory (handlePrompt_stream now p t (Some rid) st) =
           (responseHistory st)(cid \<mapsto> take MAX_HISTORY
              (\<lparr>prompt = p, response = truncate_response t, fullResponse = t,
                entry_id = rid, timestamp = now\<rparr>
               # (case responseHistory st cid of Some rs \<Rightarrow> rs | None \<Rightarrow> [])))"
    and "lastResponseId (handlePrompt_stream now p t (Some rid) st) = Some rid"
  using assms
  by (simp_all add: handlePrompt_stream_def Let_def ensureConversationId_def
      saveResponseToHistory_recorded)

lemma saveResponseToHistory_file:
  assumes "rid \<noteq> []" "r \<noteq> []" "currentConversationId st = Some cid" "cid \<noteq> []"
    and "responsesDir (fs st) = Some es"
  shows "\<exists>es'. responsesDir (fs (saveResponseToHistory now p r (Some rid) st)) = Some es'
           \<and> map_of es' (cid @ ''.json'') =
               Some (Parsed (the (responseHistory (saveResponseToHistory now p r (Some rid) st) cid)))"
  using assms
  by (simp add: saveResponseToHistory_def Let_def map_of_writeFile)

lemma take_cons_take: "take n (x # take n xs) = take n (x # xs)"
  by (cases n) simp_all

lemma take_append_take: "take n (ys @ take n zs) = take n (ys @ zs)"
  by (simp add: min_def)

lemma per_conversation_cap_step:
  assumes "\<forall>cid rs. responseHistory st cid = Some rs \<longrightarrow> length rs \<le> MAX_HISTORY"
  shows "\<forall>cid rs. responseHistory (saveResponseToHistory now p r rid st) cid = Some rs
           \<longrightarrow> length rs \<le> MAX_HISTORY"
proof (cases "recorded rid r st")
  case False
  then show ?thesis
    using assms by (simp add: saveResponseToHistory_skip)
next
  case True
  then obtain i c where "rid = Some i" "i \<noteq> []" "r \<noteq> []"
    "currentConversationId st = Some c" "c \<noteq> []"
    by (cases rid; cases "currentConversationId st") (auto simp: recorded_def)
  then show ?thesis
    using assms by (simp add: saveResponseToHistory_recorded)
qed

lemma global_cap_step:
  assumes "recorded rid r st \<or> length (allResponseHistory st) \<le> MAX_HISTORY * 5"
  shows "length (allResponseHistory (saveResponseToHistory now p r rid st)) \<le> MAX_HISTORY * 5"
proof (cases "recorded rid r st")
  case False
  then show ?thesis
    using assms by (simp add: saveResponseToHistory_skip)
next
  case True
  then obtain i c where "rid = Some i" "i \<noteq> []" "r \<noteq> []"
    "currentConversationId st = Some c" "c \<noteq> []"
    by (cases rid; cases "currentConversationId st") (auto simp: recorded_def)
  then show ?thesis
    by (simp add: saveResponseToHistory_recorded)
qed

lemma recordAll_per_conversation_cap:
  "\<forall>cid rs. responseHistory st cid = Some rs \<longrightarrow> length rs \<le> MAX_HISTORY \<Longrightarrow>
   \<forall>cid rs. responseHistory (recordAll xs st) cid = Some rs \<longrightarrow> length rs \<le> MAX_HISTORY"
proof (induction xs arbitrary: st)
  case Nil
  then show ?case by simp
next
  case (Cons x xs)
  obtain c now p r rid where x: "x = (c, now, p, r, rid)"
    by (cases x) blast
  have "\<forall>cid rs. responseHistory (st\<lparr>currentConversationId := c\<rparr>) cid = Some rs
          \<longrightarrow> length rs \<le> MAX_HISTORY"
    using Cons.prems by simp
  from Cons.IH [OF per_conversation_cap_step [OF this]] show ?case
    by (simp add: x)
qed

lemma recordAll_global_cap:
  "length (allResponseHistory st) \<le> MAX_HISTORY * 5 \<Longrightarrow>
   length (allResponseHistory (recordAll xs st)) \<le> MAX_HISTORY * 5"
proof (induction xs arbitrary: st)
  case Nil
  then show ?case by simp
next
  case (Cons x xs)
  obtain c now p r rid where x: "x = (c, now, p, r, rid)"
    by (cases x) blast
  have "length (allResponseHistory (st\<lparr>currentConversationId := c\<rparr>)) \<le> MAX_HISTORY * 5"
    using Cons.prems by simp
  then have "length (allResponseHistory
      (saveResponseToHistory now p r rid (st\<lparr>currentConversationId := c\<rparr>))) \<le> MAX_HISTORY * 5"
    by (intro global_cap_step) simp
  from Cons.IH [OF this] show ?case
    by (simp add: x)
qed

lemma recordAll_same_conversation:
  assumes "\<forall>x \<in> set xs. records_into cid x"
  shows "responseHistory (recordAll xs st) cid =
           (if xs = [] then responseHistory st cid
            else Some (take MAX_HISTORY (rev (map entry_of xs) @
                   (case responseHistory st cid of Some rs \<Rightarrow> rs | None \<Rightarrow> []))))"
  using assms
proof (induction xs arbitrary: st)
  case Nil
  then show ?case by simp
next
  case (Cons x xs)
  obtain c now p r rid where x: "x = (c, now, p, r, rid)"
    by (cases x) blast
  from Cons.prems obtain i where g: "c = Some cid" "cid \<noteq> []" "rid = Some i" "i \<noteq> []" "r \<noteq> []"
    by (cases rid) (auto simp: x records_into_def)
  let ?st1 = "saveResponseToHistory now p r rid (st\<lparr>currentConversationId := c\<rparr>)"
  have h1: "responseHistory ?st1 cid =
      Some (take MAX_HISTORY (entry_of x #
        (case responseHistory st cid of Some rs \<Rightarrow> rs | None \<Rightarrow> [])))"
    using g by (simp add: saveResponseToHistory_recorded entry_of_def x)
  have "responseHistory (recordAll (x # xs) st) cid = responseHistory (recordAll xs ?st1) cid"
    by (simp add: x)
  also have "\<dots> = (if xs = [] then responseHistory ?st1 cid
            else Some (take MAX_HISTORY (rev (map entry_of xs) @
                   (case responseHistory ?st1 cid of Some rs \<Rightarrow> rs | None \<Rightarrow> []))))"
    using Cons.prems by (intro Cons.IH) simp
  also have "\<dots> = Some (take MAX_HISTORY (rev (map entry_of (x # xs)) @
                   (case responseHistory st cid of Some rs \<Rightarrow> rs | None \<Rightarrow> [])))"
    by (simp add: h1 take_append_take)
  finally show ?case
    by simp
qed

lemma recordAll_global:
  assumes "\<forall>x \<in> set xs. \<exists>cid. records_into cid x" and "xs \<noteq> []"
  shows "allResponseHistory (recordAll xs st) =
           take (MAX_HISTORY * 5) (rev (map gentry_of xs) @ allResponseHistory st)"
  using assms
proof (induction xs arbitrary: st)
  case Nil
  then show ?case by simp
next
  case (Cons x xs)
  obtain c now p r rid where x: "x = (c, now, p, r, rid)"
    by (cases x) blast
  from Cons.prems obtain cid i where g: "c = Some cid" "cid \<noteq> []" "rid = Some i" "i \<noteq> []" "r \<noteq> []"
    by (cases rid) (auto simp: x records_into_def)
  let ?st1 = "saveResponseToHistory now p r rid (st\<lparr>currentConversationId := c\<rparr>)"
  have h1: "allResponseHistory ?st1 =
      take (MAX_HISTORY * 5) (gentry_of x # allResponseHistory st)"
    using g by (simp add: saveResponseToHistory_recorded gentry_of_def entry_of_def x)
  show ?case
  proof (cases "xs = []")
    case True
    then show ?thesis by (simp add: x h1 [unfolded x])
  next
    case False
    with Cons.prems have "allResponseHistory (recordAll xs ?st1) =
        take (MAX_HISTORY * 5) (rev (map gentry_of xs) @ allResponseHistory ?st1)"
      by (intro Cons.IH) simp_all
    then show ?thesis
      by (simp add: x h1 [unfolded x] take_append_take)
  qed
qed






text \<open>
  Claim C9. Over any sequence of insertions (\<open>recordAll\<close>, the current conversation
  changing freely between them) every conversation's response list keeps at most 50
  entries and the global list at most 250. Insertions into one fresh conversation leave
  the 50 newest entries, newest first; after 51 insertions these are all but the first
  inserted one. The global list is the newest 250 of the inserted entries, newest first,
  followed by what it held before.
\<close>
theorem history_capacity:
  "((\<forall>c rs. responseHistory st c = Some rs \<longrightarrow> length rs \<le> 50) \<longrightarrow>
      (\<forall>c rs. responseHistory (recordAll xs st) c = Some rs \<longrightarrow> length rs \<le> 50))
   \<and> (length (allResponseHistory st) \<le> 250 \<longrightarrow>
        length (allResponseHistory (recordAll xs st)) \<le> 250)
   \<and> ((\<forall>x \<in> set xs. records_into cid x) \<and> xs \<noteq> [] \<and> responseHistory st cid = None \<longrightarrow>
        responseHistory (recordAll xs st) cid = Some (take 50 (rev (map entry_of xs))))
   \<and> ((\<forall>x \<in> set xs. records_into cid x) \<and> length xs = 51 \<and> responseHistory st cid = None \<longrightarrow>
        responseHistory (recordAll xs st) cid = Some (rev (map entry_of (tl xs))))
   \<and> ((\<forall>x \<in> set xs. \<exists>c. records_into c x) \<and> xs \<noteq> [] \<longrightarrow>
        allResponseHistory (recordAll xs st) =
          take 250 (rev (map gentry_of xs) @ allResponseHistory st))"
proof -
  have a: "(\<forall>c rs. responseHistory st c = Some rs \<longrightarrow> length rs \<le> 50) \<longrightarrow>
      (\<forall>c rs. responseHistory (recordAll xs st) c = Some rs \<longrightarrow> length rs \<le> 50)"
    using recordAll_per_conversation_cap [of st xs] by (simp add: MAX_HISTORY_def)
  have b: "length (allResponseHistory st) \<le> 250 \<longrightarrow>
        length (allResponseHistory (recordAll xs st)) \<le> 250"
    using recordAll_global_cap [of st xs] by (simp add: MAX_HISTORY_def)
  have c: "responseHistory (recordAll xs st) cid = Some (take 50 (rev (map entry_of xs)))"
    if "\<forall>x \<in> set xs. records_into cid x" "xs \<noteq> []" "responseHistory st cid = None"
    using recordAll_same_conversation [OF that(1), of st] that(2,3)
    by (simp add: MAX_HISTORY_def)
  have d: "responseHistory (recordAll xs st) cid = Some (rev (map entry_of (tl xs)))"
    if h: "\<forall>x \<in> set xs. records_into cid x" "length xs = 51" "responseHistory st cid = None"
  proof -
    from h(2) obtain y ys where xs: "xs = y # ys" and l: "length ys = 50"
      by (cases xs) simp_all
    have "responseHistory (recordAll xs st) cid = Some (take 50 (rev (map entry_of xs)))"
      using h(1,3) by (intro c) (simp_all add: xs)
    then show ?thesis
      by (simp add: xs l)
  qed
  have e: "allResponseHistory (recordAll xs st) =
          take 250 (rev (map gentry_of xs) @ allResponseHistory st)"
    if "\<forall>x \<in> set xs. \<exists>c. records_into c x" "xs \<noteq> []"
    using recordAll_global [OF that, of st] by (simp add: MAX_HISTORY_def)
  show ?thesis
    using a b c d e by blast
qed

section \<open>Loading\<close>

lemma readable_Cons:
  "readable ((f, c) # es) = ((suffix ''.json'' f \<longrightarrow> c \<noteq> Corrupt) \<and> readable es)"
  by (simp add: readable_def)

lemma loadConversations_throws:
  "\<not> readable es \<Longrightarrow> \<exists>e. loadConversations es st = Inl e \<and> fs e = fs st \<and> console e = console st"
proof (induction es arbitrary: st)
  case Nil
  then show ?case by (simp add: readable_def)
next
  case (Cons x es)
  obtain f c where x: "x = (f, c)" by (cases x)
  show ?case
  proof (cases "suffix ''.json'' f \<and> c = Corrupt")
    case True
    then show ?thesis by (simp add: x)
  next
    case False
    with Cons.prems have "\<not> readable es"
      by (auto simp: x readable_Cons)
    note ih = Cons.IH [OF this]
    show ?thesis
    proof (cases c)
      case Corrupt
      with False ih [of st] show ?thesis by (simp add: x)
    next
      case (Parsed cd)
      show ?thesis
        using ih [of st] ih [of "st\<lparr>conversationHistories :=
          (conversationHistories st)(convIdOf f \<mapsto> history cd)\<rparr>"]
        by (simp add: x Parsed)
    qed
  qed
qed

lemma loadResponses_throws:
  "\<not> readable es \<Longrightarrow> \<exists>e. loadResponses es st = Inl e \<and> fs e = fs st \<and> console e = console st"
proof (induction es arbitrary: st)
  case Nil
  then show ?case by (simp add: readable_def)
next
  case (Cons x es)
  obtain f c where x: "x = (f, c)" by (cases x)
  show ?case
  proof (cases "suffix ''.json'' f \<and> c = Corrupt")
    case True
    then show ?thesis by (simp add: x)
  next
    case False
    with Cons.prems have "\<not> readable es"
      by (auto simp: x readable_Cons)
    note ih = Cons.IH [OF this]
    show ?thesis
    proof (cases c)
      case Corrupt
      with False ih [of st] show ?thesis by (simp add: x)
    next
      case (Parsed rs0)
      show ?thesis
        using ih [of st] ih [of "st\<lparr>responseHistory := (responseHistory st)(convIdOf f \<mapsto> rs0),
                    allResponseHistory := allResponseHistory st @
                      map (\<lambda>r. with_conversationId r (convIdOf f)) rs0\<rparr>"]
        by (simp add: x Parsed)
    qed
  qed
qed

lemma loadConversations_any:
  "\<exists>e. (loadConversations es st = Inl e \<or> loadConversations es st = Inr e)
       \<and> fs e = fs st \<and> console e = console st
       \<and> responseHistory e = responseHistory st \<and> allResponseHistory e = allResponseHistory st"
proof (induction es arbitrary: st)
  case Nil
  then show ?case by simp
next
  case (Cons x es)
  obtain f c where x: "x = (f, c)" by (cases x)
  show ?case
  proof (cases "suffix ''.json'' f")
    case False
    with Cons.IH [of st] show ?thesis by (simp add: x)
  next
    case True
    show ?thesis
    proof (cases c)
      case Corrupt
      with True show ?thesis by (simp add: x)
    next
      case (Parsed cd)
      with True Cons.IH [of "st\<lparr>conversationHistories :=
          (conversationHistories st)(convIdOf f \<mapsto> history cd)\<rparr>"]
      show ?thesis by (simp add: x)
    qed
  qed
qed



lemma loadSession_any:
  "\<exists>e. (loadSession st = Inl e \<or> loadSession st = Inr e)
       \<and> conversationsDir (fs e) = conversationsDir (fs st)
       \<and> responsesDir (fs e) = responsesDir (fs st)
       \<and> console e = console st
       \<and> responseHistory e = responseHistory st
       \<and> allResponseHistory e = allResponseHistory st"
proof (cases "stateFile (fs st)")
  case None
  then show ?thesis by (simp add: loadSession_def)
next
  case (Some c)
  then show ?thesis by (cases c) (simp_all add: loadSession_def)
qed


lemma loadBody_throws:
  assumes "(\<exists>cs. conversationsDir (fs st) = Some cs \<and> \<not> readable cs)
         \<or> (\<exists>es. responsesDir (fs st) = Some es \<and> \<not> readable es)"
  shows "\<exists>e. loadBody st = Inl e \<and> console e = console st"
proof -
  from loadSession_any [of st] obtain st1 where
    s1: "loadSession st = Inl st1 \<or> loadSession st = Inr st1"
    and d1: "conversationsDir (fs st1) = conversationsDir (fs st)"
      "responsesDir (fs st1) = responsesDir (fs st)"
    and c1: "console st1 = console st"
    by blast
  show ?thesis
  proof (cases "loadSession st = Inl st1")
    case True
    then show ?thesis by (simp add: loadBody_def c1)
  next
    case False
    with s1 have l1: "loadSession st = Inr st1" by blast
    show ?thesis
    proof (cases "\<exists>cs. conversationsDir (fs st) = Some cs \<and> \<not> readable cs")
      case True
      then obtain cs where cs: "conversationsDir (fs st1) = Some cs" "\<not> readable cs"
        using d1 by auto
      from loadConversations_throws [OF cs(2), of st1] obtain e where
        "loadConversations cs st1 = Inl e" "console e = console st1"
        by blast
      then show ?thesis
        by (simp add: loadBody_def l1 cs(1) c1)
    next
      case False
      with assms obtain es where es: "responsesDir (fs st) = Some es" "\<not> readable es"
        by blast
      define r2 where "r2 = (case conversationsDir (fs st1) of
                   None \<Rightarrow> Inr st1
                 | Some cs \<Rightarrow> loadConversations cs st1)"
      have "\<exists>st2. (r2 = Inl st2 \<or> r2 = Inr st2) \<and> fs st2 = fs st1 \<and> console st2 = console st1"
      proof (cases "conversationsDir (fs st1)")
        case None
        then show ?thesis by (simp add: r2_def)
      next
        case (Some cs)
        with loadConversations_any [of cs st1] show ?thesis
          by (auto simp: r2_def)
      qed
      then obtain st2 where s2: "r2 = Inl st2 \<or> r2 = Inr st2"
        and f2: "fs st2 = fs st1" and c2: "console st2 = console st1"
        by blast
      have b: "loadBody st =
          (case r2 of
             Inl e \<Rightarrow> Inl e
           | Inr st2 \<Rightarrow>
               (case (case responsesDir (fs st2) of
                        None \<Rightarrow> Inr st2
                      | Some es \<Rightarrow> loadResponses es st2) of
                  Inl e \<Rightarrow> Inl e
                | Inr st3 \<Rightarrow>
                    Inr (st3\<lparr>allResponseHistory :=
                               sortByTimestamp (allResponseHistory st3)\<rparr>)))"
        by (simp add: loadBody_def l1 r2_def)
      show ?thesis
      proof (cases "r2 = Inl st2")
        case True
        then show ?thesis by (simp add: b c2 c1)
      next
        case False
        with s2 have r: "r2 = Inr st2" by blast
        from loadResponses_throws [OF es(2), of st2] obtain e where
          "loadResponses es st2 = Inl e" "console e = console st2"
          by blast
        then show ?thesis
          by (simp add: b r f2 d1 es(1) c2 c1)
      qed
    qed
  qed
qed

lemma resetState_fields:
  "current_session (resetState st) = defaultState"
  "commandHistory (resetState st) = []"
  "conversationHistories (resetState st) = Map.empty"
  "responseHistory (resetState st) = Map.empty"
  "allResponseHistory (resetState st) = []"
  "console (resetState st) = console st"
  "fs (resetState st) = fs st"
  by (simp_all add: resetState_def current_session_def defaultState_def)

text \<open>
  Claim C6, as amended. When a \<open>.json\<close> file of the conversations or of the responses
  directory is corrupt, \<open>loadState\<close> still returns (startup goes on) and logs
  "Error loading state:", but it keeps nothing of what it had loaded: the session
  variables, every conversation's command history, every conversation's response list and
  the global list are reset to empty.
\<close>
theorem corrupt_record_resets_everything:
  assumes "suffix ''.json'' f"
    and "(\<exists>cs. conversationsDir (fs st) = Some cs \<and> (f, Corrupt) \<in> set cs)
       \<or> (\<exists>es. responsesDir (fs st) = Some es \<and> (f, Corrupt) \<in> set es)"
  shows "conversationHistories (loadState st) = Map.empty
       \<and> responseHistory (loadState st) = Map.empty
       \<and> allResponseHistory (loadState st) = []
       \<and> current_session (loadState st) = defaultState
       \<and> commandHistory (loadState st) = []
       \<and> console (loadState st) = console st @ [''Error loading state:'']"
proof -
  have "(\<exists>cs. conversationsDir (fs st) = Some cs \<and> \<not> readable cs)
         \<or> (\<exists>es. responsesDir (fs st) = Some es \<and> \<not> readable es)"
    using assms unfolding readable_def by blast
  from loadBody_throws [OF this] obtain e where
    e: "loadBody st = Inl e" "console e = console st"
    by blast
  have "loadState st = resetState (log ''Error loading state:'' e)"
    by (simp add: loadState_def e(1))
  then show ?thesis
    by (simp add: resetState_fields e(2))
qed






section \<open>Scenarios\<close>

lemma new_conv_id_1: "new_conv_id (Suc 0) = ''conv_1''"
  by (simp add: new_conv_id_def show_nat.simps digit_char_def)

lemma st_conv1_eq:
  "st_conv1 =
     \<lparr>lastResponseId = None, conversationContext = [],
      currentConversationId = Some ''conv_1'',
      pausedConversation = False, pausedConversationContext = [],
      pausedConversationId = None, commandHistory = [],
      conversationHistories = [''conv_1'' \<mapsto> []], responseHistory = Map.empty,
      allResponseHistory = [],
      fs = \<lparr>stateFile = Some (Parsed
              \<lparr>lastResponseId = None, conversationContext = [],
               currentConversationId = Some ''conv_1'', pausedConversation = False,
               pausedConversationContext = [], pausedConversationId = None\<rparr>),
            conversationsDir = Some
              [(''conv_1.json'', Parsed \<lparr>conv_id = ''conv_1'', conv_context = [], history = []\<rparr>)],
            responsesDir = Some []\<rparr>,
      console = []\<rparr>"
  by (simp add: st_conv1_def startNewConversation_def startCLI_def initialState_def d0_def
      loadState_def loadBody_def loadSession_def sortByTimestamp_def saveState_def
      current_session_def defaultState_def new_conv_id_1)

lemma st_hi_eq:
  "st_hi =
     \<lparr>lastResponseId = Some ''resp_1'', conversationContext = [],
      currentConversationId = Some ''conv_1'',
      pausedConversation = True, pausedConversationContext = context_hi,
      pausedConversationId = Some ''conv_1'', commandHistory = [],
      conversationHistories = [''conv_1'' \<mapsto> []],
      responseHistory = [''conv_1'' \<mapsto> [entry_hi]],
      allResponseHistory = [with_conversationId entry_hi ''conv_1''],
      fs = disk_hi, console = []\<rparr>"
  by (simp add: st_hi_def st_conv1_eq handlePrompt_stream_def Let_def ensureConversationId_def
      pushUserMessage_def newUserMessage_def newAssistantMessage_def saveResponseToHistory_def
      truncate_response_def MAX_HISTORY_def saveState_def current_session_def disk_hi_def
      entry_hi_def context_hi_def)

lemma st_three_fields:
  "currentConversationId st_three = Some ''conv_1''"
  "responseHistory st_three ''conv_1'' = Some three_entries"
  "currentResponses st_three = three_entries"
  "lastResponseId st_three = None"
  "allResponseHistory st_three = []"
  by (simp_all add: st_three_def st_conv1_eq currentResponses_def)

lemma cmd_continue_2: "cmd_continue now [''continue'', ''2''] st = continueConversation now (Some (Num (int 2 - 1))) st"
  by (simp add: cmd_continue_def parseInt_def minus_one_def is_digit_def digits_val_def digit_val_def)

lemma cmd_continue_7: "cmd_continue now [''continue'', ''7''] st = continueConversation now (Some (Num 6)) st"
  by (simp add: cmd_continue_def parseInt_def minus_one_def is_digit_def digits_val_def digit_val_def)

lemma cmd_continue_abc: "cmd_continue now [''continue'', ''abc''] st = continueConversation now (Some NaN) st"
  by (simp add: cmd_continue_def parseInt_def minus_one_def is_digit_def)


lemma continueFromIndex_histories:
  "responseHistory (continueFromIndex now i st) = responseHistory st"
  "allResponseHistory (continueFromIndex now i st) = allResponseHistory st"
  by (simp_all add: continueFromIndex_def Let_def)

lemma st_two_fields:
  "pausedConversation st_two"
  "pausedConversationContext st_two =
     context_hi @ [\<lparr>role = ''user'', content = ''more''\<rparr>, \<lparr>role = ''assistant'', content = ''sure''\<rparr>]"
  "pausedConversationId st_two = Some ''conv_1''"
  "currentConversationId st_two = Some ''conv_1''"
  "responseHistory st_two ''conv_1'' = Some [entry_more, entry_hi]"
  "lastResponseId st_two = Some ''resp_2''"
proof -
  have c: "continueConversation 3 (Some (Num 0)) st_hi = (True, continueFromIndex 3 0 st_hi)"
    by (simp add: continueConversation_def valid_index_Num index_of_def currentResponses_def
        st_hi_eq)
  have r: "currentResponses st_hi = [entry_hi]"
    by (simp add: currentResponses_def st_hi_eq)
  have hi: "currentConversationId st_hi = Some ''conv_1''"
    "responseHistory st_hi = [''conv_1'' \<mapsto> [entry_hi]]"
    by (simp_all add: st_hi_eq)
  have f: "conversationContext (continueFromIndex 3 0 st_hi) = context_hi"
    "currentConversationId (continueFromIndex 3 0 st_hi) = Some ''conv_1''"
    "responseHistory (continueFromIndex 3 0 st_hi) = [''conv_1'' \<mapsto> [entry_hi]]"
    by (simp_all add: continueFromIndex_fields continueFromIndex_histories r hi pair_context_def
        entry_hi_def context_hi_def)
  show "pausedConversation st_two"
    "pausedConversationContext st_two =
       context_hi @ [\<lparr>role = ''user'', content = ''more''\<rparr>, \<lparr>role = ''assistant'', content = ''sure''\<rparr>]"
    "pausedConversationId st_two = Some ''conv_1''"
    "currentConversationId st_two = Some ''conv_1''"
    "responseHistory st_two ''conv_1'' = Some [entry_more, entry_hi]"
    "lastResponseId st_two = Some ''resp_2''"
    by (simp_all add: st_two_def c handlePrompt_stream_fields
        handlePrompt_stream_recorded [where cid = "''conv_1''"] f
        pushUserMessage_def newUserMessage_def newAssistantMessage_def context_hi_def
        truncate_response_def MAX_HISTORY_def entry_more_def)
qed

lemma st_back_fields:
  "pausedConversation st_back"
  "pausedConversationContext st_back =
     [\<lparr>role = ''user'', content = ''hi''\<rparr>, \<lparr>role = ''assistant'', content = ''hello!''\<rparr>,
      \<lparr>role = ''user'', content = ''more''\<rparr>] @ \<lparr>role = ''assistant'', content = ''sure''\<rparr> # []"
  "pausedConversationId st_back = Some ''conv_1''"
  "responseHistory st_back ''conv_1'' = Some [entry_more, entry_hi]"
  "lastResponseId st_back = Some ''resp_1''"
  "conversationContext st_back = context_hi"
proof -
  have r: "currentResponses st_two = [entry_more, entry_hi]"
    by (simp add: currentResponses_def st_two_fields)
  have c: "continueConversation 5 (Some (Num 1)) st_two = (True, continueFromIndex 5 1 st_two)"
    by (simp add: continueConversation_def valid_index_Num index_of_def r)
  show "pausedConversation st_back"
    "pausedConversationContext st_back =
     [\<lparr>role = ''user'', content = ''hi''\<rparr>, \<lparr>role = ''assistant'', content = ''hello!''\<rparr>,
      \<lparr>role = ''user'', content = ''more''\<rparr>] @ \<lparr>role = ''assistant'', content = ''sure''\<rparr> # []"
    "pausedConversationId st_back = Some ''conv_1''"
    "responseHistory st_back ''conv_1'' = Some [entry_more, entry_hi]"
    "lastResponseId st_back = Some ''resp_1''"
    "conversationContext st_back = context_hi"
    by (simp_all add: st_back_def c continueFromIndex_fields continueFromIndex_histories r
        st_two_fields context_hi_def pair_context_def entry_hi_def)
qed

theorem implicit_resume_witness:
  "pausedConversation st_hi
   \<and> fst (continueConversation 3 None st_hi)
   \<and> conversationContext (snd (continueConversation 3 None st_hi)) = context_hi
   \<and> currentConversationId (snd (continueConversation 3 None st_hi)) = Some ''conv_1''
   \<and> lastResponseId (snd (continueConversation 3 None st_hi)) = Some ''resp_1''
   \<and> \<not> pausedConversation (snd (continueConversation 3 None st_hi))
   \<and> pausedConversationContext (snd (continueConversation 3 None st_hi)) = []
   \<and> pausedConversationId (snd (continueConversation 3 None st_hi)) = None
   \<and> pausedConversation st_back
   \<and> lastResponseId st_back = Some ''resp_1''
   \<and> conversationContext st_back = context_hi
   \<and> lastResponseId (snd (continueConversation 6 None st_back)) = Some ''resp_2''
   \<and> conversationContext (snd (continueConversation 6 None st_back)) =
       [\<lparr>role = ''user'', content = ''hi''\<rparr>, \<lparr>role = ''assistant'', content = ''hello!''\<rparr>,
        \<lparr>role = ''user'', content = ''more''\<rparr>, \<lparr>role = ''assistant'', content = ''sure''\<rparr>]"
proof -
  have p: "pausedConversation st_hi"
    by (simp add: st_hi_eq)
  have h: "2 \<le> length (pausedConversationContext st_hi)"
    "pausedConversationId st_hi = Some ''conv_1''" "''conv_1'' \<noteq> []"
    "responseHistory st_hi ''conv_1'' = Some [entry_hi]"
    "pausedConversationContext st_hi =
       [\<lparr>role = ''user'', content = ''hi''\<rparr>] @ \<lparr>role = ''assistant'', content = ''hello!''\<rparr> # []"
    "role \<lparr>role = ''assistant'', content = ''hello!''\<rparr> = ''assistant''"
    "\<forall>x \<in> set ([] :: message list). role x \<noteq> ''assistant''"
    "find (\<lambda>resp. fullResponse resp = content \<lparr>role = ''assistant'', content = ''hello!''\<rparr>)
       [entry_hi] = Some entry_hi"
    by (simp_all add: st_hi_eq context_hi_def entry_hi_def)
  from implicit_resume [OF p, of 3] h
  have a: "lastResponseId (snd (continueConversation 3 None st_hi)) = Some (entry_id entry_hi)"
    by blast
  have q: "pausedConversation st_back"
    by (rule st_back_fields)
  have k: "2 \<le> length (pausedConversationContext st_back)"
    "role \<lparr>role = ''assistant'', content = ''sure''\<rparr> = ''assistant''"
    "\<forall>x \<in> set ([] :: message list). role x \<noteq> ''assistant''"
    "find (\<lambda>resp. fullResponse resp = content \<lparr>role = ''assistant'', content = ''sure''\<rparr>)
       [entry_more, entry_hi] = Some entry_more"
    by (simp_all add: st_back_fields entry_more_def)
  from implicit_resume [OF q, of 6] k h(3) st_back_fields(2-4)
  have b: "lastResponseId (snd (continueConversation 6 None st_back)) = Some (entry_id entry_more)"
    by blast
  from implicit_resume [OF p, of 3] implicit_resume [OF q, of 6] p q a b show ?thesis
    by (simp add: st_hi_eq st_back_fields entry_hi_def entry_more_def)
qed

theorem continue_by_index_witness:
  "currentConversationId st_three = Some ''conv_1'' \<and> (1::nat) \<le> 2 \<and> 2 \<le> length three_entries
   \<and> fst (cmd_continue 9 [''continue'', ''2''] st_three)
   \<and> lastResponseId (snd (cmd_continue 9 [''continue'', ''2''] st_three)) = Some ''resp_2''
   \<and> conversationContext (snd (cmd_continue 9 [''continue'', ''2''] st_three)) =
       [\<lparr>role = ''user'', content = ''q2''\<rparr>, \<lparr>role = ''assistant'', content = ''a2''\<rparr>]"
  using continue_by_index [of st_three "''conv_1''" three_entries 2 9]
  by (simp add: cmd_continue_2 st_three_fields) (simp add: three_entries_def)

lemma new_conv_id_3: "new_conv_id 3 = ''conv_3''"
  by (simp add: new_conv_id_def show_nat.simps digit_char_def)

lemma new_conv_id_5: "new_conv_id 5 = ''conv_5''"
  by (simp add: new_conv_id_def show_nat.simps digit_char_def)

lemma not_valid_6: "\<not> valid_index (Some (Num 6)) (length three_entries)"
  by (simp add: valid_index_def three_entries_def)

lemma not_valid_NaN: "\<not> valid_index (Some NaN) n"
  by (simp add: valid_index_def)

theorem bad_index_counterexample:
  "length (currentResponses st_three) = 3
   \<and> lastResponseId st_three = None
   \<and> fst (cmd_continue 9 [''continue'', ''7''] st_three)
   \<and> lastResponseId (snd (cmd_continue 9 [''continue'', ''7''] st_three)) = Some ''resp_3''
   \<and> fst (cmd_continue 9 [''continue'', ''abc''] st_three)
   \<and> lastResponseId (snd (cmd_continue 9 [''continue'', ''abc''] st_three)) = Some ''resp_3''"
proof -
  have a: "continueConversation 9 (Some (Num 6)) st_three = (True, continueFromRecent st_three)"
    by (subst continueConversation_explicit)
       (simp_all add: st_three_fields not_valid_6, simp add: three_entries_def)
  have b: "continueConversation 9 (Some NaN) st_three = (True, continueFromRecent st_three)"
    by (subst continueConversation_explicit)
       (simp_all add: st_three_fields not_valid_NaN, simp add: three_entries_def)
  have c: "lastResponseId (continueFromRecent st_three) = Some ''resp_3''"
    by (simp add: continueFromRecent_fields st_three_fields) (simp add: three_entries_def)
  show ?thesis
    by (simp add: cmd_continue_7 cmd_continue_abc a b c st_three_fields)
       (simp add: three_entries_def)
qed

theorem bad_index_falls_through_witness:
  "Some (Num 6) \<noteq> None \<and> \<not> valid_index (Some (Num 6)) (length (currentResponses st_three))
   \<and> fst (continueConversation 9 (Some (Num 6)) st_three)
   \<and> conversationContext (snd (continueConversation 9 (Some (Num 6)) st_three)) =
       [\<lparr>role = ''user'', content = ''q3''\<rparr>, \<lparr>role = ''assistant'', content = ''a3''\<rparr>]
   \<and> continueConversation 9 (Some NaN) (initialState d0) =
       (False, (initialState d0)\<lparr>console := [''No response history available to continue from.'']\<rparr>)"
proof -
  have v: "\<not> valid_index (Some (Num 6)) (length (currentResponses st_three))"
    by (simp add: st_three_fields not_valid_6)
  have n: "currentResponses st_three \<noteq> []"
    by (simp add: st_three_fields three_entries_def)
  have e: "currentResponses (initialState d0) = []" "allResponseHistory (initialState d0) = []"
    "console (initialState d0) = []"
    by (simp_all add: currentResponses_def initialState_def)
  from bad_index_falls_through [OF _ v, of 9] n
  have "fst (continueConversation 9 (Some (Num 6)) st_three)
   \<and> conversationContext (snd (continueConversation 9 (Some (Num 6)) st_three)) =
       pair_context (hd (currentResponses st_three))"
    by simp
  moreover from bad_index_falls_through [of "Some NaN" "initialState d0" 9] e
  have "continueConversation 9 (Some NaN) (initialState d0) =
       (False, (initialState d0)\<lparr>console := [''No response history available to continue from.'']\<rparr>)"
    by (simp add: not_valid_NaN)
  ultimately show ?thesis
    using v by (simp add: st_three_fields pair_context_def three_entries_def)
qed

lemma st_noid_fields:
  "pausedConversation st_noid"
  "pausedConversationContext st_noid =
     [\<lparr>role = ''user'', content = ''next''\<rparr>, \<lparr>role = ''assistant'', content = ''answer''\<rparr>]"
  "pausedConversationId st_noid = Some ''conv_3''"
  "currentConversationId st_noid = Some ''conv_3''"
  "responseHistory st_noid = [''conv_1'' \<mapsto> [entry_hi]]"
  "allResponseHistory st_noid = [with_conversationId entry_hi ''conv_1'']"
  by (simp_all add: st_noid_def cmd_new_def startNewConversation_def st_hi_eq new_conv_id_3
      handlePrompt_stream_def Let_def ensureConversationId_def pushUserMessage_def
      newUserMessage_def newAssistantMessage_def)

lemma json_conv_1: "suffix ''.json'' ''conv_1.json''" "convIdOf ''conv_1.json'' = ''conv_1''"
  by (simp_all add: suffix_to_prefix convIdOf_def)

lemma json_conv_9: "suffix ''.json'' ''conv_9.json''"
  by (simp add: suffix_to_prefix)


lemma st_restart_fields:
  "current_session st_restart = defaultState"
  "currentConversationId st_restart = None"
  "pausedConversation st_restart = False"
  "allResponseHistory st_restart = [with_conversationId entry_hi ''conv_1'']"
  "responseHistory st_restart ''conv_1'' = Some [entry_hi]"
  by (simp_all add: st_restart_def startCLI_def initialState_def disk_hi_def
      loadState_def loadBody_def loadSession_def sortByTimestamp_def saveState_def
      current_session_def defaultState_def json_conv_1)

lemma truncate_response_fixed:
  "(truncate_response r = r) = (length r \<le> 100 \<or> drop 100 r = ''...'')"
proof (cases "length r \<le> 100")
  case True
  then show ?thesis
    by (simp add: truncate_response_def)
next
  case False
  have "(take 100 r @ ''...'' = take 100 r @ drop 100 r) = (''...'' = drop 100 r)"
    by (rule same_append_eq)
  then have "(take 100 r @ ''...'' = r) = (drop 100 r = ''...'')"
    by (simp add: eq_commute)
  with False show ?thesis
    by (simp add: truncate_response_def)
qed

text \<open>
  Claim C7, as amended. An exchange that is recorded (non-empty response id and text, a
  current conversation) puts at the head of the conversation's list, and of the list
  written to \<open>responses/<id>.json\<close>, an entry whose \<open>fullResponse\<close> field is the full
  response text. Its \<open>response\<close> field is the display form: the first 100 characters,
  followed by \<open>...\<close> when the text is longer. The display form is the full text exactly
  when the text has at most 100 characters, or is itself 100 characters followed by
  \<open>...\<close>.
\<close>

theorem recorded_entry_texts:
  assumes "rid \<noteq> []" and "r \<noteq> []" and "currentConversationId st = Some cid" and "cid \<noteq> []"
    and "responsesDir (fs st) = Some es"
  shows "\<exists>es' e rest.
           responsesDir (fs (saveResponseToHistory now p r (Some rid) st)) = Some es'
         \<and> map_of es' (cid @ ''.json'') = Some (Parsed (e # rest))
         \<and> responseHistory (saveResponseToHistory now p r (Some rid) st) cid = Some (e # rest)
         \<and> prompt e = p \<and> entry_id e = rid \<and> timestamp e = now
         \<and> fullResponse e = r
         \<and> response e = take 100 r @ (if 100 < length r then ''...'' else [])
         \<and> (length r \<le> 100 \<longrightarrow> response e = r)
         \<and> (response e = r) = (length r \<le> 100 \<or> drop 100 r = ''...'')"
proof -
  let ?e = "\<lparr>prompt = p, response = truncate_response r, fullResponse = r,
             entry_id = rid, timestamp = now\<rparr>"
  let ?old = "case responseHistory st cid of Some rs \<Rightarrow> rs | None \<Rightarrow> []"
  have h: "responseHistory (saveResponseToHistory now p r (Some rid) st) cid =
      Some (?e # take 49 ?old)"
    using assms(1-4) by (simp add: saveResponseToHistory_recorded MAX_HISTORY_def)
  from saveResponseToHistory_file [OF assms, of now p] obtain es' where
    "responsesDir (fs (saveResponseToHistory now p r (Some rid) st)) = Some es'"
    "map_of es' (cid @ ''.json'') = Some (Parsed (?e # take 49 ?old))"
    unfolding h by auto
  moreover have "(truncate_response r = r) = (length r \<le> 100 \<or> drop 100 r = ''...'')"
    by (rule truncate_response_fixed)
  ultimately show ?thesis
    using h
    by (intro exI [of _ es'] exI [of _ ?e] exI [of _ "take 49 ?old"])
       (simp add: truncate_response_def)
qed

lemma long_text_facts:
  "long_text \<noteq> []" "truncate_response long_text = replicate 100 (CHR ''a'') @ ''...''"
  "replicate 100 (CHR ''a'') @ ''...'' \<noteq> long_text"
proof -
  show "long_text \<noteq> []"
    by (simp add: long_text_def)
  show "truncate_response long_text = replicate 100 (CHR ''a'') @ ''...''"
    by (simp add: truncate_response_def long_text_def)
  have "length (replicate 100 (CHR ''a'') @ ''...'') \<noteq> length long_text"
    by (simp add: long_text_def)
  then show "replicate 100 (CHR ''a'') @ ''...'' \<noteq> long_text"
    by metis
qed

lemma st_long_fields:
  "currentConversationId st_long = Some ''conv_1''"
  "responseHistory st_long ''conv_1'' = Some [entry_long]"
  "currentResponses st_long = [entry_long]"
  "responsesDir (fs st_long) = Some [(''conv_1.json'', Parsed [entry_long])]"
  by (simp_all add: st_long_def saveResponseToHistory_def Let_def st_conv1_eq long_text_facts
      MAX_HISTORY_def entry_long_def currentResponses_def)

theorem recorded_entry_texts_counterexample:
  "st_long = saveResponseToHistory 5 ''p'' long_text (Some ''resp_9'') st_conv1
   \<and> responseHistory st_long ''conv_1'' = Some [entry_long]
   \<and> responsesDir (fs st_long) = Some [(''conv_1.json'', Parsed [entry_long])]
   \<and> response entry_long = replicate 100 (CHR ''a'') @ ''...''
   \<and> response entry_long \<noteq> long_text"
  using long_text_facts(3)
  by (simp add: st_long_fields) (simp add: st_long_def entry_long_def)

theorem recorded_entry_texts_witness:
  "''resp_1'' \<noteq> [] \<and> ''hello!'' \<noteq> [] \<and> currentConversationId st_conv1 = Some ''conv_1''
   \<and> responsesDir (fs st_conv1) = Some []
   \<and> (\<exists>e rest. responseHistory (saveResponseToHistory 2 ''hi'' ''hello!'' (Some ''resp_1'') st_conv1)
          ''conv_1'' = Some (e # rest)
        \<and> fullResponse e = ''hello!'' \<and> response e = ''hello!'')
   \<and> (\<exists>e rest. responseHistory
          (saveResponseToHistory 2 ''hi'' (replicate 100 (CHR ''a'') @ ''...'') (Some ''resp_1'') st_conv1)
          ''conv_1'' = Some (e # rest)
        \<and> response e = replicate 100 (CHR ''a'') @ ''...''
        \<and> response e = fullResponse e)
   \<and> (\<exists>e rest. responseHistory (saveResponseToHistory 2 ''hi'' long_text (Some ''resp_1'') st_conv1)
          ''conv_1'' = Some (e # rest)
        \<and> fullResponse e = long_text \<and> response e \<noteq> long_text)"
proof -
  have h: "''resp_1'' \<noteq> []" "''hello!'' \<noteq> []" "currentConversationId st_conv1 = Some ''conv_1''"
    "''conv_1'' \<noteq> []" "responsesDir (fs st_conv1) = Some []"
    by (simp_all add: st_conv1_eq)
  have n: "replicate 100 (CHR ''a'') @ ''...'' \<noteq> []" "long_text \<noteq> []"
    by (simp_all add: long_text_def)
  have d: "drop 100 (replicate 100 (CHR ''a'') @ ''...'') = ''...''"
    "\<not> length long_text \<le> 100" "drop 100 long_text \<noteq> ''...''"
    by (simp_all add: long_text_def)
  have a: "\<exists>e rest. responseHistory (saveResponseToHistory 2 ''hi'' ''hello!'' (Some ''resp_1'') st_conv1)
          ''conv_1'' = Some (e # rest)
        \<and> fullResponse e = ''hello!'' \<and> response e = ''hello!''"
    using recorded_entry_texts [OF h, of 2 "''hi''"] by auto
  have b: "\<exists>e rest. responseHistory
          (saveResponseToHistory 2 ''hi'' (replicate 100 (CHR ''a'') @ ''...'') (Some ''resp_1'') st_conv1)
          ''conv_1'' = Some (e # rest)
        \<and> response e = replicate 100 (CHR ''a'') @ ''...''
        \<and> response e = fullResponse e"
    using recorded_entry_texts [OF h(1) n(1) h(3-5), of 2 "''hi''"] d(1) by auto
  have c: "\<exists>e rest. responseHistory (saveResponseToHistory 2 ''hi'' long_text (Some ''resp_1'') st_conv1)
          ''conv_1'' = Some (e # rest)
        \<and> fullResponse e = long_text \<and> response e \<noteq> long_text"
    using recorded_entry_texts [OF h(1) n(2) h(3-5), of 2 "''hi''"] d(2,3) by auto
  from h a b c show ?thesis
    by blast
qed







theorem corrupt_record_counterexample:
  "responseHistory (loadState (initialState disk_hi)) ''conv_1'' = Some [entry_hi]
   \<and> conversationHistories (loadState (initialState disk_hi)) ''conv_1'' = Some []
   \<and> responseHistory (loadState (initialState disk_bad)) ''conv_1'' = None
   \<and> conversationHistories (loadState (initialState disk_bad)) ''conv_1'' = None
   \<and> allResponseHistory (loadState (initialState disk_bad)) = []"
  by (simp add: initialState_def disk_bad_def disk_hi_def loadState_def loadBody_def
      loadSession_def sortByTimestamp_def json_conv_1 json_conv_9 resetState_def log_def)

theorem corrupt_record_resets_everything_witness:
  "suffix ''.json'' ''conv_9.json''
   \<and> (''conv_9.json'', Corrupt) \<in> set (the (conversationsDir (fs (initialState disk_bad))))
   \<and> responseHistory (loadState (initialState disk_bad)) = Map.empty
   \<and> current_session (loadState (initialState disk_bad)) = defaultState
   \<and> console (loadState (initialState disk_bad)) = [''Error loading state:'']"
proof -
  have c: "conversationsDir (fs (initialState disk_bad)) = Some
     [(''conv_1.json'', Parsed \<lparr>conv_id = ''conv_1'', conv_context = [], history = []\<rparr>),
      (''conv_9.json'', Corrupt)]"
    "console (initialState disk_bad) = []"
    by (simp_all add: initialState_def disk_bad_def)
  have "(\<exists>cs. conversationsDir (fs (initialState disk_bad)) = Some cs \<and> (''conv_9.json'', Corrupt) \<in> set cs)
       \<or> (\<exists>es. responsesDir (fs (initialState disk_bad)) = Some es \<and> (''conv_9.json'', Corrupt) \<in> set es)"
    by (simp add: c)
  from corrupt_record_resets_everything [OF json_conv_9 this] show ?thesis
    by (simp add: c json_conv_9)
qed

theorem global_fallback_witness:
  "\<not> (None = (None :: jsnum option) \<and> pausedConversation st_restart)
   \<and> currentResponses st_restart = []
   \<and> allResponseHistory st_restart = [with_conversationId entry_hi ''conv_1'']
   \<and> fst (continueConversation 5 None st_restart)
   \<and> currentConversationId (snd (continueConversation 5 None st_restart)) = Some ''conv_5''
   \<and> currentConversationId (snd (continueConversation 5 None st_restart)) \<noteq> Some ''conv_1''
   \<and> lastResponseId (snd (continueConversation 5 None st_restart)) = Some ''resp_1''
   \<and> conversationContext (snd (continueConversation 5 None st_restart)) = context_hi"
proof -
  have h: "\<not> (None = (None :: jsnum option) \<and> pausedConversation st_restart)"
    "currentResponses st_restart = []"
    "allResponseHistory st_restart = with_conversationId entry_hi ''conv_1'' # []"
    by (simp_all add: st_restart_fields currentResponses_def)
  have g: "conversationId (with_conversationId entry_hi ''conv_1'') = new_conv_id 1"
    "prompt (with_conversationId entry_hi ''conv_1'') = ''hi''"
    "fullResponse (with_conversationId entry_hi ''conv_1'') = ''hello!''"
    "entry_id (with_conversationId entry_hi ''conv_1'') = ''resp_1''"
    by (simp_all add: with_conversationId_def entry_hi_def new_conv_id_1)
  note t = global_fallback [OF h, of 5]
  from t have "conversationId (with_conversationId entry_hi ''conv_1'') = new_conv_id 1 \<longrightarrow>
      (1::nat) \<noteq> 5 \<longrightarrow>
      currentConversationId (snd (continueConversation 5 None st_restart)) \<noteq>
      Some (conversationId (with_conversationId entry_hi ''conv_1''))"
    by blast
  with g(1) have "currentConversationId (snd (continueConversation 5 None st_restart)) \<noteq>
      Some (conversationId (with_conversationId entry_hi ''conv_1''))"
    by simp
  with t h show ?thesis
    by (simp add: g new_conv_id_5 new_conv_id_1 context_hi_def)
qed

theorem paused_snapshot_frame_witness:
  "\<not> (Some (Num 0) = None \<and> pausedConversation st_hi)
   \<and> pausedConversation st_hi
   \<and> pausedConversation (snd (continueConversation 3 (Some (Num 0)) st_hi))
   \<and> pausedConversationContext (snd (continueConversation 3 (Some (Num 0)) st_hi)) = context_hi
   \<and> pausedConversationId (snd (continueConversation 3 (Some (Num 0)) st_hi)) = Some ''conv_1''
   \<and> conversationContext
       (snd (continueConversation 4 None (snd (continueConversation 3 (Some (Num 0)) st_hi)))) =
       context_hi
   \<and> \<not> pausedConversation (snd (continueConversation 4 None st_hi))"
  using paused_snapshot_frame [of "Some (Num 0)" st_hi 3 4] paused_snapshot_frame [of None st_hi 4 4]
  by (simp add: st_hi_eq)

theorem history_capacity_witness:
  "list_all (records_into ''conv_1'') fifty_one \<and> length fifty_one = 51
   \<and> responseHistory (initialState d0) ''conv_1'' = None
   \<and> responseHistory (recordAll fifty_one (initialState d0)) ''conv_1'' =
       Some (rev (map entry_of (tl fifty_one)))
   \<and> length (rev (map entry_of (tl fifty_one))) = 50
   \<and> timestamp (entry_of (hd fifty_one)) = 0
   \<and> timestamp ` set (rev (map entry_of (tl fifty_one))) = {1..<51}
   \<and> length (allResponseHistory (recordAll fifty_one (initialState d0))) \<le> 250"
proof -
  have h: "\<forall>x \<in> set fifty_one. records_into ''conv_1'' x" "length fifty_one = 51"
    "responseHistory (initialState d0) ''conv_1'' = None"
    "length (allResponseHistory (initialState d0)) \<le> 250"
    by (simp_all add: fifty_one_def records_into_def initialState_def)
  have tl: "tl fifty_one = map (\<lambda>i. (Some ''conv_1'', i, ''p'', ''r'', Some ''id'')) [1..<51]"
    by (simp add: fifty_one_def map_tl [symmetric] del: upt_rec_numeral)
  have hd: "hd fifty_one = (Some ''conv_1'', 0, ''p'', ''r'', Some ''id'')"
    by (simp add: fifty_one_def hd_map upt_rec del: upt_rec_numeral)
  have ts: "timestamp ` set (rev (map entry_of (tl fifty_one))) = {1..<51}"
    by (simp add: tl entry_of_def image_image del: upt_rec_numeral)
  note t = history_capacity [of "initialState d0" fifty_one "''conv_1''"]
  from t h have "responseHistory (recordAll fifty_one (initialState d0)) ''conv_1'' =
       Some (rev (map entry_of (tl fifty_one)))"
    by blast
  moreover from t h have "length (allResponseHistory (recordAll fifty_one (initialState d0))) \<le> 250"
    by blast
  ultimately show ?thesis
    using h ts by (simp add: hd entry_of_def list_all_iff)
qed

lemma cmd_continue_1:
  "cmd_continue now [''continue'', ''1''] st = continueConversation now (Some (Num 0)) st"
  by (simp add: cmd_continue_def parseInt_def minus_one_def is_digit_def digits_val_def digit_val_def)

theorem continue_by_index_counterexample:
  "currentResponses st_long = [entry_long]
   \<and> fst (cmd_continue 9 [''continue'', ''1''] st_long)
   \<and> lastResponseId (snd (cmd_continue 9 [''continue'', ''1''] st_long)) = Some (entry_id entry_long)
   \<and> conversationContext (snd (cmd_continue 9 [''continue'', ''1''] st_long)) =
       [\<lparr>role = ''user'', content = ''p''\<rparr>, \<lparr>role = ''assistant'', content = long_text\<rparr>]
   \<and> conversationContext (snd (cmd_continue 9 [''continue'', ''1''] st_long)) \<noteq>
       [\<lparr>role = ''user'', content = prompt entry_long\<rparr>,
        \<lparr>role = ''assistant'', content = response entry_long\<rparr>]"
proof -
  have c: "continueConversation 9 (Some (Num 0)) st_long = (True, continueFromIndex 9 0 st_long)"
    by (simp add: continueConversation_def st_long_fields valid_index_Num index_of_def)
  have r: "response entry_long \<noteq> long_text" "fullResponse entry_long = long_text"
    "prompt entry_long = ''p''"
    using long_text_facts(3) by (simp_all add: entry_long_def)
  show ?thesis
    using r by (simp add: cmd_continue_1 c continueFromIndex_fields st_long_fields pair_context_def)
qed

lemma new_conv_id_7: "new_conv_id 7 = ''conv_7''"
  by (simp add: new_conv_id_def show_nat.simps digit_char_def)

lemma st_long_new_fields:
  "\<not> pausedConversation st_long_new"
  "currentConversationId st_long_new = Some ''conv_7''"
  "currentResponses st_long_new = []"
  "allResponseHistory st_long_new = [with_conversationId entry_long ''conv_1'']"
proof -
  have a: "allResponseHistory st_long = [with_conversationId entry_long ''conv_1'']"
    "responseHistory st_long = [''conv_1'' \<mapsto> [entry_long]]"
    by (simp_all add: st_long_def saveResponseToHistory_def Let_def st_conv1_eq long_text_facts
        MAX_HISTORY_def entry_long_def)
  show "\<not> pausedConversation st_long_new"
    "currentConversationId st_long_new = Some ''conv_7''"
    "allResponseHistory st_long_new = [with_conversationId entry_long ''conv_1'']"
    by (simp_all add: st_long_new_def cmd_new_def startNewConversation_def new_conv_id_7 a)
  show "currentResponses st_long_new = []"
    by (simp add: currentResponses_def st_long_new_def cmd_new_def startNewConversation_def
        new_conv_id_7 a)
qed

theorem global_fallback_counterexample:
  "currentResponses st_noid = []
   \<and> allResponseHistory st_noid = [with_conversationId entry_hi ''conv_1'']
   \<and> fst (continueConversation 5 None st_noid)
   \<and> currentConversationId (snd (continueConversation 5 None st_noid)) = Some ''conv_3''
   \<and> currentConversationId st_noid = Some ''conv_3''
   \<and> conversationContext (snd (continueConversation 5 None st_noid)) =
       [\<lparr>role = ''user'', content = ''next''\<rparr>, \<lparr>role = ''assistant'', content = ''answer''\<rparr>]
   \<and> currentResponses st_long_new = []
   \<and> allResponseHistory st_long_new = [with_conversationId entry_long ''conv_1'']
   \<and> conversationContext (snd (continueConversation 9 None st_long_new)) =
       [\<lparr>role = ''user'', content = ''p''\<rparr>, \<lparr>role = ''assistant'', content = long_text\<rparr>]
   \<and> response (with_conversationId entry_long ''conv_1'') \<noteq> long_text"
proof -
  have c: "continueConversation 5 None st_noid = (True, resumePaused st_noid)"
    by (simp add: continueConversation_def st_noid_fields)
  have r: "currentResponses st_noid = []"
    by (simp add: currentResponses_def st_noid_fields)
  have d: "continueConversation 9 None st_long_new = (True, continueFromGlobal 9 st_long_new)"
    by (simp add: continueConversation_def st_long_new_fields valid_index_empty)
  have g: "pair_context (with_conversationId entry_long ''conv_1'') =
      [\<lparr>role = ''user'', content = ''p''\<rparr>, \<lparr>role = ''assistant'', content = long_text\<rparr>]"
    "response (with_conversationId entry_long ''conv_1'') \<noteq> long_text"
    using long_text_facts(3)
    by (simp_all add: pair_context_def with_conversationId_def entry_long_def)
  show ?thesis
    using g(2)
    by (simp add: c r d resumePaused_fields st_noid_fields continueFromGlobal_fields
        st_long_new_fields g(1))
qed

lemma remove_first_written:
  "CHR ''.'' \<notin> set s \<Longrightarrow> remove_first ''.json'' (s @ ''.json'') = s"
  by (induction s) auto

lemma digit_char_not_dot: "d < 10 \<Longrightarrow> digit_char d \<noteq> CHR ''.''"
proof -
  assume "d < 10"
  then have "digit_char d \<in> set ''0123456789''"
    unfolding digit_char_def by (intro nth_mem) simp
  then show ?thesis
    by auto
qed

lemma show_nat_no_dot: "CHR ''.'' \<notin> set (show_nat n)"
proof (induction n rule: show_nat.induct)
  case (1 n)
  show ?case
  proof (cases "n < 10")
    case True
    then show ?thesis
      using digit_char_not_dot [of n] by (auto simp: show_nat_small)
  next
    case False
    then show ?thesis
      using "1.IH" digit_char_not_dot [of "n mod 10"] by (auto simp: show_nat_big)
  qed
qed

lemma convIdOf_written:
  "convIdOf (new_conv_id t @ ''.json'') = new_conv_id t"
  "suffix ''.json'' (new_conv_id t @ ''.json'')"
proof -
  have "CHR ''.'' \<notin> set (new_conv_id t)"
    by (simp add: new_conv_id_def show_nat_no_dot)
  then show "convIdOf (new_conv_id t @ ''.json'') = new_conv_id t"
    by (simp add: convIdOf_def remove_first_written)
  show "suffix ''.json'' (new_conv_id t @ ''.json'')"
    by (rule suffixI) simp
qed

end
